theory Spec2Isabelle
  imports Main "HOL-Library.Word" "HOL-Library.Monad_Syntax"
begin

unbundle bit_operations_syntax

section \<open>The Zephyr touchscreen driver (drivers/input/touchscreen/zephyr.c)\<close>

text \<open>
  The driver talks to a touch controller over SPI, uploads two firmware images,
  queries reports, and decodes touch frames into input events. The embedding
  below follows the C source function by function.

  \<^item> Bytes are \<open>8 word\<close>; \<open>u16\<close>, \<open>s16\<close> and \<open>u32\<close> fields are words read from a
    byte buffer in little-endian order (the ARM targets of the driver).
  \<^item> C \<open>int\<close> variables (retry counters, lengths, checksums, values handed to the
    input layer) are HOL \<open>int\<close>: on the values these variables take no 32-bit
    overflow occurs. The one computation that is done in unsigned 32-bit
    arithmetic (the sensor geometry) is modelled on \<open>32 word\<close>.
  \<^item> A buffer is a byte list; an access outside the buffer is undefined in C
    and is the value \<open>None\<close> here (every function that touches a buffer
    returns an \<open>option\<close>).
  \<^item> Every call to an external collaborator (SPI transfer, delay, input layer)
    is appended to the \<open>trace\<close> field of the state, in call order.
    \<open>printk\<close> and \<open>dev_dbg\<close> are not recorded.
\<close>

type_synonym u8 = "8 word"
type_synonym u16 = "16 word"
type_synonym u32 = "32 word"

subsection \<open>Reading and writing fields of a byte buffer\<close>

definition rd8 :: "u8 list \<Rightarrow> nat \<Rightarrow> u8 option" where
  "rd8 buf k = (if k < length buf then Some (buf ! k) else None)"

definition le16 :: "u8 \<Rightarrow> u8 \<Rightarrow> u16" where
  "le16 lo hi = word_of_nat (unat lo + 256 * unat hi)"

definition rd16 :: "u8 list \<Rightarrow> nat \<Rightarrow> u16 option" where
  "rd16 buf k =
     (if k + 1 < length buf then Some (le16 (buf ! k) (buf ! (k + 1))) else None)"

definition lo8 :: "u16 \<Rightarrow> u8" where
  "lo8 v = word_of_nat (unat v mod 256)"

definition hi8 :: "u16 \<Rightarrow> u8" where
  "hi8 v = word_of_nat (unat v div 256)"

definition wr16 :: "u8 list \<Rightarrow> nat \<Rightarrow> u16 \<Rightarrow> u8 list option" where
  "wr16 buf k v =
     (if k + 1 < length buf then Some (buf[k := lo8 v, k + 1 := hi8 v]) else None)"

definition le32 :: "u8 \<Rightarrow> u8 \<Rightarrow> u8 \<Rightarrow> u8 \<Rightarrow> u32" where
  "le32 b0 b1 b2 b3 =
     word_of_nat (unat b0 + 256 * unat b1 + 65536 * unat b2 + 16777216 * unat b3)"

definition rd32 :: "u8 list \<Rightarrow> nat \<Rightarrow> u32 option" where
  "rd32 buf k =
     (if k + 3 < length buf
      then Some (le32 (buf ! k) (buf ! (k + 1)) (buf ! (k + 2)) (buf ! (k + 3)))
      else None)"

subsection \<open>Driver state and the calls it makes\<close>

record MTSPISetting =
  speed :: int
  txDelay :: int
  rxDelay :: int

definition MTNormalSpeed :: MTSPISetting where
  "MTNormalSpeed = \<lparr>speed = 83000, txDelay = 5, rxDelay = 10\<rparr>"

definition MTFastSpeed :: MTSPISetting where
  "MTFastSpeed = \<lparr>speed = 4500000, txDelay = 0, rxDelay = 10\<rparr>"

datatype abs_code =
    ABS_X | ABS_Y
  | ABS_MT_TOUCH_MAJOR | ABS_MT_TOUCH_MINOR
  | ABS_MT_WIDTH_MAJOR | ABS_MT_WIDTH_MINOR
  | ABS_MT_ORIENTATION | ABS_MT_TRACKING_ID
  | ABS_MT_POSITION_X | ABS_MT_POSITION_Y

datatype key_code = BTN_TOUCH

datatype event =
    SpiTx MTSPISetting "u8 list"
  | SpiTxRx MTSPISetting "u8 list"
  | Msleep nat
  | Udelay nat
  | GpioOut bool
  | ReportAbs abs_code int
  | ReportKey key_code int
  | MtSync
  | InputSync
  | SetAbsParams abs_code int int

record zephyr_data =
  OutputPacket :: "u8 list"
  InputPacket :: "u8 list"
  GetInfoPacket :: "u8 list"
  GetResultPacket :: "u8 list"
  InterfaceVersion :: int
  MaxPacketSize :: int
  FamilyID :: int
  SensorWidth :: int
  SensorHeight :: int
  SensorColumns :: int
  SensorRows :: int
  BCDVersion :: int
  Endianness :: int
  SensorRegionDescriptor :: "u8 list"
  SensorRegionDescriptorLen :: int
  SensorRegionParam :: "u8 list"
  SensorRegionParamLen :: int
  min_pressure :: u8
  CurNOP :: int
  firmware_loaded :: bool
  irq_count :: int
  trace :: "event list"

text \<open>
  The device at the other end of the bus: given the calls made so far (the
  current transfer is the last entry), byte \<open>i\<close> of what the transfer leaves in
  the receive buffer.
\<close>

type_synonym device = "event list \<Rightarrow> nat \<Rightarrow> u8"

definition MAX_FINGER_ORIENTATION :: int where
  "MAX_FINGER_ORIENTATION = 16384"

subsection \<open>The pressure-floor attribute\<close>

text \<open>
  \<open>zephyr_min_pressure_store\<close>. The kernel's \<open>sscanf\<close> is outside the driver: its
  result (the number of conversions \<open>ret\<close> and the parsed \<open>unsigned int\<close>) is the
  input of the model.
\<close>

definition zephyr_min_pressure_store :: "zephyr_data \<Rightarrow> int \<Rightarrow> u32 \<Rightarrow> int \<times> zephyr_data" where
  "zephyr_min_pressure_store mt ret new_val =
     (if ret \<le> 0 then (ret, mt)
      else if new_val \<ge> 255 then (0, mt)
      else (ret, mt\<lparr>min_pressure := ucast new_val\<rparr>))"

subsection \<open>Sensor geometry\<close>

text \<open>
  Lines 304 and 305 of \<open>zephyr_setup\<close>: the two dimensions are read as \<open>u32\<close>
  from the report buffer; the subtraction, the multiplication and the division
  are unsigned 32-bit operations; the result is stored in an \<open>int\<close>.
\<close>

definition sensor_width_of :: "u32 \<Rightarrow> int" where
  "sensor_width_of raw_x = sint (((9000 - raw_x) * 84) div 73)"

definition sensor_height_of :: "u32 \<Rightarrow> int" where
  "sensor_height_of raw_y = sint (((13850 - raw_y) * 84) div 73)"

definition sensor_geometry :: "u8 list \<Rightarrow> (int \<times> int) option" where
  "sensor_geometry reportBuffer = do {
     raw_x \<leftarrow> rd32 reportBuffer 0;
     raw_y \<leftarrow> rd32 reportBuffer 4;
     Some (sensor_width_of raw_x, sensor_height_of raw_y)
   }"

text \<open>
  The formula of the specification, on unbounded integers, with division
  truncating towards zero.
\<close>

definition trunc_div :: "int \<Rightarrow> int \<Rightarrow> int" where
  "trunc_div a b =
     (if (a < 0) = (b < 0) then \<bar>a\<bar> div \<bar>b\<bar> else - (\<bar>a\<bar> div \<bar>b\<bar>))"

definition spec_width :: "int \<Rightarrow> int" where
  "spec_width raw_x = trunc_div ((9000 - raw_x) * 84) 73"

definition spec_height :: "int \<Rightarrow> int" where
  "spec_height raw_y = trunc_div ((13850 - raw_y) * 84) 73"

subsection \<open>The frame decoder\<close>

text \<open>
  Field offsets of \<open>MTFrameHeader\<close> and \<open>FingerData\<close> (no padding: every field
  is naturally aligned in the declaration).
\<close>

definition hdr_type :: nat where "hdr_type = 0"
definition hdr_headerLen :: nat where "hdr_headerLen = 2"
definition hdr_numFingers :: nat where "hdr_numFingers = 16"
definition hdr_fingerDataLen :: nat where "hdr_fingerDataLen = 17"

definition fd_id :: nat where "fd_id = 0"
definition fd_x :: nat where "fd_x = 4"
definition fd_y :: nat where "fd_y = 6"
definition fd_size_major :: nat where "fd_size_major = 12"
definition fd_size_minor :: nat where "fd_size_minor = 14"
definition fd_orientation :: nat where "fd_orientation = 16"
definition fd_force_major :: nat where "fd_force_major = 18"
definition fd_force_minor :: nat where "fd_force_minor = 20"

lemmas field_offsets =
  hdr_type_def hdr_headerLen_def hdr_numFingers_def hdr_fingerDataLen_def
  fd_id_def fd_x_def fd_y_def fd_size_major_def fd_size_minor_def
  fd_orientation_def fd_force_major_def fd_force_minor_def

text \<open>
  The subtraction of the pressure floor from one force field, in place
  (lines 428 to 440): the field is a \<open>u16\<close>, the floor a \<open>u8\<close>.
\<close>

definition floor_force :: "u8 \<Rightarrow> u16 \<Rightarrow> u16" where
  "floor_force minp force =
     (if unat force > unat minp then force - ucast minp else 0)"

text \<open>
  The eight reports of a live finger (lines 445 to 452). \<open>x\<close> and \<open>y\<close> are \<open>s16\<close>,
  the other fields unsigned.
\<close>

definition report_finger :: "zephyr_data \<Rightarrow> u8 list \<Rightarrow> nat \<Rightarrow> event list option" where
  "report_finger mt buf finger = do {
     force_major \<leftarrow> rd16 buf (finger + fd_force_major);
     force_minor \<leftarrow> rd16 buf (finger + fd_force_minor);
     size_major \<leftarrow> rd16 buf (finger + fd_size_major);
     size_minor \<leftarrow> rd16 buf (finger + fd_size_minor);
     orientation \<leftarrow> rd16 buf (finger + fd_orientation);
     ident \<leftarrow> rd8 buf (finger + fd_id);
     x \<leftarrow> rd16 buf (finger + fd_x);
     y \<leftarrow> rd16 buf (finger + fd_y);
     Some [ReportAbs ABS_MT_TOUCH_MAJOR (uint force_major),
           ReportAbs ABS_MT_TOUCH_MINOR (uint force_minor),
           ReportAbs ABS_MT_WIDTH_MAJOR (uint size_major),
           ReportAbs ABS_MT_WIDTH_MINOR (uint size_minor),
           ReportAbs ABS_MT_ORIENTATION (MAX_FINGER_ORIENTATION - uint orientation),
           ReportAbs ABS_MT_TRACKING_ID (uint ident),
           ReportAbs ABS_MT_POSITION_X (sint x),
           ReportAbs ABS_MT_POSITION_Y (SensorHeight mt - sint y)]
   }"

text \<open>
  One iteration of the loop over the fingers (lines 428 to 457). \<open>dat\<close> is the
  offset of the frame header in \<open>InputPacket\<close>, \<open>finger\<close> the offset of the
  current record. The result is the new state and the advanced cursor.
\<close>

definition finger_step :: "zephyr_data \<Rightarrow> nat \<Rightarrow> nat \<Rightarrow> (zephyr_data \<times> nat) option" where
  "finger_step mt dat finger = do {
     force_major \<leftarrow> rd16 (InputPacket mt) (finger + fd_force_major);
     buf1 \<leftarrow> wr16 (InputPacket mt) (finger + fd_force_major)
               (floor_force (min_pressure mt) force_major);
     force_minor \<leftarrow> rd16 buf1 (finger + fd_force_minor);
     buf2 \<leftarrow> wr16 buf1 (finger + fd_force_minor)
               (floor_force (min_pressure mt) force_minor);
     force_major' \<leftarrow> rd16 buf2 (finger + fd_force_major);
     force_minor' \<leftarrow> rd16 buf2 (finger + fd_force_minor);
     evs \<leftarrow> (if force_major' > 0 \<or> force_minor' > 0
             then report_finger mt buf2 finger else Some []);
     fingerDataLen \<leftarrow> rd8 buf2 (dat + hdr_fingerDataLen);
     Some (mt\<lparr>InputPacket := buf2, trace := trace mt @ evs @ [MtSync]\<rparr>,
           finger + unat fingerDataLen)
   }"

function fingers_loop :: "zephyr_data \<Rightarrow> nat \<Rightarrow> nat \<Rightarrow> nat \<Rightarrow> zephyr_data option" where
  "fingers_loop mt dat finger i = do {
     numFingers \<leftarrow> rd8 (InputPacket mt) (dat + hdr_numFingers);
     if i < unat numFingers
     then do {
       (mt', finger') \<leftarrow> finger_step mt dat finger;
       fingers_loop mt' dat finger' (i + 1)
     }
     else Some mt
   }"
  by pat_completeness auto
termination
proof (relation "measure (\<lambda>(mt, dat, finger, i). 256 - i)")
  show "wf (measure (\<lambda>(mt, dat, finger, i). 256 - i))" by simp
next
  fix mt :: zephyr_data and dat finger i :: nat and numFingers :: u8
    and x :: "zephyr_data \<times> nat" and mt' :: zephyr_data and finger' :: nat
  assume "i < unat numFingers"
  moreover have "unat numFingers < 256"
    using unsigned_less [of numFingers, where 'a = nat] by simp
  ultimately show "((mt', dat, finger', i + 1), (mt, dat, finger, i))
      \<in> measure (\<lambda>(mt, dat, finger, i). 256 - i)"
    by simp
qed

text \<open>
  The single-touch report after the loop (lines 460 to 471), on the first
  finger record as the loop has left it.
\<close>

definition report_single_touch :: "zephyr_data \<Rightarrow> nat \<Rightarrow> event list option" where
  "report_single_touch mt dat = do {
     numFingers \<leftarrow> rd8 (InputPacket mt) (dat + hdr_numFingers);
     if unat numFingers > 0
     then do {
       headerLen \<leftarrow> rd8 (InputPacket mt) (dat + hdr_headerLen);
       let finger = dat + unat headerLen;
       force_minor \<leftarrow> rd16 (InputPacket mt) (finger + fd_force_minor);
       if force_minor > 0
       then do {
         x \<leftarrow> rd16 (InputPacket mt) (finger + fd_x);
         y \<leftarrow> rd16 (InputPacket mt) (finger + fd_y);
         size_minor \<leftarrow> rd16 (InputPacket mt) (finger + fd_size_minor);
         Some [ReportAbs ABS_X (sint x),
               ReportAbs ABS_Y (SensorHeight mt - sint y),
               ReportKey BTN_TOUCH (if size_minor > 0 then 1 else 0)]
       }
       else Some [ReportKey BTN_TOUCH 0]
     }
     else Some []
   }"

text \<open>
  \<open>newPacket\<close>: \<open>dat\<close> is the offset of \<open>data\<close> in \<open>InputPacket\<close> (the only caller
  passes \<open>InputPacket + 1\<close>); \<open>len\<close> is not used by the C function.
\<close>

definition newPacket :: "zephyr_data \<Rightarrow> nat \<Rightarrow> int \<Rightarrow> zephyr_data option" where
  "newPacket mt dat len = do {
     type \<leftarrow> rd8 (InputPacket mt) (dat + hdr_type);
     headerLen \<leftarrow> rd8 (InputPacket mt) (dat + hdr_headerLen);
     mt1 \<leftarrow> fingers_loop mt dat (dat + unat headerLen) 0;
     evs \<leftarrow> report_single_touch mt1 dat;
     Some (mt1\<lparr>trace := trace mt1 @ evs @ [InputSync]\<rparr>)
   }"

subsection \<open>The transport\<close>

definition NORMAL_SPEED :: MTSPISetting where
  "NORMAL_SPEED = MTNormalSpeed"

definition FAST_SPEED :: MTSPISetting where
  "FAST_SPEED = MTFastSpeed"

definition msleep :: "nat \<Rightarrow> zephyr_data \<Rightarrow> zephyr_data" where
  "msleep n mt = mt\<lparr>trace := trace mt @ [Msleep n]\<rparr>"

definition udelay :: "nat \<Rightarrow> zephyr_data \<Rightarrow> zephyr_data" where
  "udelay n mt = mt\<lparr>trace := trace mt @ [Udelay n]\<rparr>"

text \<open>
  \<open>mt_tx\<close> sends \<open>outLen\<close> bytes of \<open>outBuffer\<close>. No caller looks at the status
  that \<open>spi_sync\<close> returns, so it is not part of the result.
\<close>

definition mt_tx :: "zephyr_data \<Rightarrow> MTSPISetting \<Rightarrow> u8 list \<Rightarrow> int \<Rightarrow> zephyr_data option" where
  "mt_tx mt setting outBuffer outLen =
     (if 0 \<le> outLen \<and> nat outLen \<le> length outBuffer
      then Some (mt\<lparr>trace := trace mt @ [SpiTx setting (take (nat outLen) outBuffer)]\<rparr>)
      else None)"

text \<open>
  \<open>mt_txrx\<close> exchanges \<open>sz = max outLen inLen\<close> bytes. \<open>inCap\<close> is the size of
  the receive buffer. The result is the \<open>sz\<close> bytes the transfer leaves at the
  start of the receive buffer; the caller stores them.
\<close>

definition mt_txrx ::
  "device \<Rightarrow> zephyr_data \<Rightarrow> MTSPISetting \<Rightarrow> u8 list \<Rightarrow> int \<Rightarrow> nat \<Rightarrow> int
     \<Rightarrow> (u8 list \<times> zephyr_data) option" where
  "mt_txrx dev mt setting outBuffer outLen inCap inLen =
     (let sz = (if outLen > inLen then outLen else inLen) in
      if 0 \<le> sz \<and> nat sz \<le> length outBuffer \<and> nat sz \<le> inCap
      then let tr = trace mt @ [SpiTxRx setting (take (nat sz) outBuffer)]
           in Some (map (dev tr) [0..<nat sz], mt\<lparr>trace := tr\<rparr>)
      else None)"

definition store_rx :: "u8 list \<Rightarrow> u8 list \<Rightarrow> u8 list" where
  "store_rx rx buf = rx @ drop (length rx) buf"

subsection \<open>The transaction engine\<close>

datatype 'a attempt = Retry | Done 'a

text \<open>\<open>((hi & 0xFF) << 8) | (lo & 0xFF)\<close> on \<open>int\<close>.\<close>

definition be16 :: "u8 \<Rightarrow> u8 \<Rightarrow> int" where
  "be16 hi lo = push_bit 8 (uint hi AND 0xFF) OR (uint lo AND 0xFF)"

text \<open>The checks of one attempt of \<open>readFrameLength\<close> (lines 568 to 592).\<close>

definition frame_length_response :: "int \<Rightarrow> u8 list \<Rightarrow> int attempt" where
  "frame_length_response maxPacketSize rx =
     (if rx ! 0 \<noteq> 0xAA then Retry
      else let tLen = be16 (rx ! 4) (rx ! 5);
               tLenCkSum = (uint (rx ! 4) + uint (rx ! 5)) AND 0xFFFF;
               checksum = be16 (rx ! 6) (rx ! 7)
           in if tLenCkSum \<noteq> checksum then Retry
              else if tLen > maxPacketSize then Retry
              else Done tLen)"

function readFrameLength_loop ::
  "device \<Rightarrow> u8 list \<Rightarrow> nat \<Rightarrow> int \<Rightarrow> zephyr_data \<Rightarrow> ((bool \<times> int) \<times> zephyr_data) option" where
  "readFrameLength_loop dev tx try len mt =
     (if try < 4 then do {
        (rx, mt1) \<leftarrow> mt_txrx dev mt NORMAL_SPEED tx 8 8 8;
        case frame_length_response (MaxPacketSize mt1) rx of
          Retry \<Rightarrow> readFrameLength_loop dev tx (try + 1) len (msleep 1 mt1)
        | Done tLen \<Rightarrow> Some ((True, tLen), mt1)
      }
      else Some ((False, len), mt))"
  by pat_completeness auto
termination
  by (relation "measure (\<lambda>(dev, tx, try, len, mt). 4 - try)") auto

text \<open>\<open>len\<close> is the value of \<open>*len\<close> at the call; it comes back unchanged on failure.\<close>

definition readFrameLength :: "device \<Rightarrow> zephyr_data \<Rightarrow> int \<Rightarrow> ((bool \<times> int) \<times> zephyr_data) option" where
  "readFrameLength dev mt len =
     readFrameLength_loop dev (replicate 8 (word_of_int (CurNOP mt))) 0 len mt"

text \<open>The byte sum \<open>buf[from] + ... + buf[to - 1]\<close> of the checksum loops.\<close>

definition sum_bytes :: "u8 list \<Rightarrow> nat \<Rightarrow> nat \<Rightarrow> int" where
  "sum_bytes buf from to = (\<Sum>i\<leftarrow>[from..<to]. uint (buf ! i))"

text \<open>The checks of one attempt of \<open>readResultData\<close> (lines 524 to 542).\<close>

definition result_data_response :: "u8 list \<Rightarrow> int \<Rightarrow> unit attempt" where
  "result_data_response pkt len =
     (if pkt ! 0 \<noteq> 0xAA then Retry
      else let checksum = be16 (pkt ! nat (len - 2)) (pkt ! nat (len - 1));
               myChecksum = sum_bytes pkt 1 (nat (len - 2)) AND 0xFFFF
           in if myChecksum \<noteq> checksum then Retry else Done ())"

function readResultData_loop ::
  "device \<Rightarrow> int \<Rightarrow> nat \<Rightarrow> zephyr_data \<Rightarrow> (bool \<times> zephyr_data) option" where
  "readResultData_loop dev len try mt =
     (if try < 4 then do {
        (rx, mt1) \<leftarrow> mt_txrx dev mt NORMAL_SPEED (GetResultPacket mt) len
                       (length (InputPacket mt)) len;
        let mt2 = mt1\<lparr>InputPacket := store_rx rx (InputPacket mt1)\<rparr>;
        case result_data_response (InputPacket mt2) len of
          Retry \<Rightarrow> readResultData_loop dev len (try + 1) (msleep 1 mt2)
        | Done _ \<Rightarrow> do {
            mt3 \<leftarrow> newPacket mt2 1 (len - 3);
            Some (True, mt3)
          }
      }
      else Some (False, mt))"
  by pat_completeness auto
termination
  by (relation "measure (\<lambda>(dev, len, try, mt). 4 - try)") auto

text \<open>
  With \<open>len < 2\<close> the C function would index \<open>InputPacket\<close> below its start; the
  only caller passes a frame length plus one, which is at least 2.
\<close>

definition readResultData :: "device \<Rightarrow> zephyr_data \<Rightarrow> int \<Rightarrow> (bool \<times> zephyr_data) option" where
  "readResultData dev mt len =
     (if len < 2 then None else readResultData_loop dev len 0 mt)"

function readFrame_loop :: "device \<Rightarrow> nat \<Rightarrow> zephyr_data \<Rightarrow> (int \<times> zephyr_data) option" where
  "readFrame_loop dev try mt =
     (if try < 4 then do {
        ((ok, len), mt1) \<leftarrow> readFrameLength dev mt 0;
        if \<not> ok then readFrame_loop dev (try + 1) (msleep 1 mt1)
        else if len \<noteq> 0 then do {
          (ok', mt2) \<leftarrow> readResultData dev mt1 (len + 1);
          if \<not> ok' then readFrame_loop dev (try + 1) (msleep 1 mt2)
          else Some (1, mt2\<lparr>CurNOP := (if CurNOP mt2 = 0x64 then 0x65 else 0x64)\<rparr>)
        }
        else Some (0, mt1)
      }
      else Some (- 1, mt))"
  by pat_completeness auto
termination
  by (relation "measure (\<lambda>(dev, try, mt). 4 - try)") auto

definition readFrame :: "device \<Rightarrow> zephyr_data \<Rightarrow> (int \<times> zephyr_data) option" where
  "readFrame dev mt = readFrame_loop dev 0 mt"

text \<open>The checks of one attempt of \<open>getReportInfo\<close> (lines 664 to 682).\<close>

definition report_info_response :: "int \<Rightarrow> u8 list \<Rightarrow> (u8 \<times> u16) attempt" where
  "report_info_response ident rx =
     (if rx ! 0 \<noteq> 0xAA then Retry
      else let checksum = be16 (rx ! 6) (rx ! 7);
               myChecksum = (ident + uint (rx ! 4) + uint (rx ! 5)) AND 0xFFFF
           in if checksum \<noteq> myChecksum then Retry
              else Done (drop_bit 4 (rx ! 4) AND 0xF,
                         push_bit 8 (ucast (rx ! 4 AND 0xF)) OR ucast (rx ! 5)))"

function getReportInfo_loop ::
  "device \<Rightarrow> int \<Rightarrow> nat \<Rightarrow> u8 \<Rightarrow> u16 \<Rightarrow> zephyr_data
     \<Rightarrow> ((bool \<times> u8 \<times> u16) \<times> zephyr_data) option" where
  "getReportInfo_loop dev ident try err len mt =
     (if try < 4 then do {
        (rx, mt1) \<leftarrow> mt_txrx dev mt NORMAL_SPEED ((replicate 8 0x8F)[1 := word_of_int ident])
                       8 8 8;
        case report_info_response ident rx of
          Retry \<Rightarrow> getReportInfo_loop dev ident (try + 1) err len (msleep 1 mt1)
        | Done (err', len') \<Rightarrow> Some ((True, err', len'), mt1)
      }
      else Some ((False, err, len), mt))"
  by pat_completeness auto
termination
  by (relation "measure (\<lambda>(dev, ident, try, err, len, mt). 4 - try)") auto

definition getReportInfo ::
  "device \<Rightarrow> zephyr_data \<Rightarrow> int \<Rightarrow> u8 \<Rightarrow> u16 \<Rightarrow> ((bool \<times> u8 \<times> u16) \<times> zephyr_data) option" where
  "getReportInfo dev mt ident err len = getReportInfo_loop dev ident 0 err len mt"

text \<open>The checks of one attempt of \<open>getReport\<close> (lines 619 to 637).\<close>

definition report_data_response :: "int \<Rightarrow> u8 list \<Rightarrow> u16 \<Rightarrow> unit attempt" where
  "report_data_response ident pkt len =
     (if pkt ! 0 \<noteq> 0xAA then Retry
      else let checksum = be16 (pkt ! (unat len + 4)) (pkt ! (unat len + 5));
               myChecksum = (ident + sum_bytes pkt 4 (unat len + 4)) AND 0xFFFF
           in if myChecksum \<noteq> checksum then Retry else Done ())"

text \<open>
  \<open>buffer\<close> and \<open>outLen\<close> are the caller's report buffer and \<open>*outLen\<close> at the
  call; they come back with the result.
\<close>

function getReport_loop ::
  "device \<Rightarrow> int \<Rightarrow> u16 \<Rightarrow> nat \<Rightarrow> u8 list \<Rightarrow> int \<Rightarrow> zephyr_data
     \<Rightarrow> ((bool \<times> u8 list \<times> int) \<times> zephyr_data) option" where
  "getReport_loop dev ident len try buffer outLen mt =
     (if try < 4 then do {
        let mt0 = mt\<lparr>GetInfoPacket := (GetInfoPacket mt)[1 := word_of_int ident]\<rparr>;
        (rx, mt1) \<leftarrow> mt_txrx dev mt0 NORMAL_SPEED (GetInfoPacket mt0) (uint len + 6)
                       (length (InputPacket mt0)) (uint len + 6);
        let mt2 = mt1\<lparr>InputPacket := store_rx rx (InputPacket mt1)\<rparr>;
        case report_data_response ident (InputPacket mt2) len of
          Retry \<Rightarrow> getReport_loop dev ident len (try + 1) buffer outLen (msleep 1 mt2)
        | Done _ \<Rightarrow>
            if unat len \<le> length buffer
            then Some ((True, store_rx (take (unat len) (drop 4 (InputPacket mt2))) buffer,
                        uint len), mt2)
            else None
      }
      else Some ((False, buffer, outLen), mt))"
  by pat_completeness auto
termination
  by (relation "measure (\<lambda>(dev, ident, len, try, buffer, outLen, mt). 4 - try)") auto

definition getReport ::
  "device \<Rightarrow> zephyr_data \<Rightarrow> int \<Rightarrow> u8 list \<Rightarrow> int
     \<Rightarrow> ((bool \<times> u8 list \<times> int) \<times> zephyr_data) option" where
  "getReport dev mt ident buffer outLen = do {
     ((ok, err, len), mt1) \<leftarrow> getReportInfo dev mt ident 0 0;
     if \<not> ok then Some ((False, buffer, outLen), mt1)
     else if err \<noteq> 0 then Some ((False, buffer, outLen), mt1)
     else getReport_loop dev ident len 0 buffer outLen mt1
   }"

function determineInterfaceVersion_loop ::
  "device \<Rightarrow> nat \<Rightarrow> zephyr_data \<Rightarrow> (bool \<times> zephyr_data) option" where
  "determineInterfaceVersion_loop dev try mt =
     (if try < 4 then do {
        (rx, mt1) \<leftarrow> mt_txrx dev mt NORMAL_SPEED (replicate 4 0xD0) 4 4 4;
        if rx ! 0 = 0xAA
        then Some (True, mt1\<lparr>InterfaceVersion := uint (rx ! 1),
                              MaxPacketSize := push_bit 8 (uint (rx ! 2)) OR uint (rx ! 3)\<rparr>)
        else determineInterfaceVersion_loop dev (try + 1)
               (msleep 3 (mt1\<lparr>InterfaceVersion := 0, MaxPacketSize := 1000\<rparr>))
      }
      else Some (False, mt))"
  by pat_completeness auto
termination
  by (relation "measure (\<lambda>(dev, try, mt). 4 - try)") auto

definition determineInterfaceVersion :: "device \<Rightarrow> zephyr_data \<Rightarrow> (bool \<times> zephyr_data) option" where
  "determineInterfaceVersion dev mt = determineInterfaceVersion_loop dev 0 mt"

subsection \<open>The bootloader loader\<close>

definition verifyUpload :: "device \<Rightarrow> zephyr_data \<Rightarrow> int \<Rightarrow> (bool \<times> zephyr_data) option" where
  "verifyUpload dev mt checksum = do {
     (rx, mt1) \<leftarrow> mt_txrx dev mt NORMAL_SPEED [5, 0, 0, 6] 4 4 4;
     if rx ! 0 \<noteq> 0xD0 \<or> rx ! 1 \<noteq> 0 then Some (False, mt1)
     else if uint (rx ! 2) \<noteq> (drop_bit 8 checksum AND 0xFF) then Some (False, mt1)
     else if uint (rx ! 3) \<noteq> (checksum AND 0xFF) then Some (False, mt1)
     else Some (True, mt1)
   }"

definition sendExecutePacket :: "device \<Rightarrow> zephyr_data \<Rightarrow> zephyr_data option" where
  "sendExecutePacket dev mt = do {
     (rx, mt1) \<leftarrow> mt_txrx dev mt NORMAL_SPEED [0xC4, 0, 0, 0xC4] 4 4 4;
     Some mt1
   }"

definition sendBlankDataPacket :: "device \<Rightarrow> zephyr_data \<Rightarrow> zephyr_data option" where
  "sendBlankDataPacket dev mt = do {
     (rx, mt1) \<leftarrow> mt_txrx dev mt NORMAL_SPEED [0xC2, 0, 0, 0] 4 4 4;
     Some mt1
   }"

text \<open>
  \<open>makeBootloaderDataPacket\<close> fills the first 0x400 bytes of \<open>output\<close>: six
  header bytes, the data, zero padding up to offset 0x3FE, and the checksum in
  the last two bytes. The result is the packet, \<open>*cksumOut\<close> and the returned
  length.
\<close>

definition packet_header :: "u32 \<Rightarrow> u8 list" where
  "packet_header destAddress =
     [0xC2,
      ucast (drop_bit 24 destAddress AND 0xFF),
      ucast (drop_bit 16 destAddress AND 0xFF),
      ucast (drop_bit 8 destAddress AND 0xFF),
      ucast (destAddress AND 0xFF),
      0]"

definition makeBootloaderDataPacket ::
  "u8 list \<Rightarrow> u32 \<Rightarrow> u8 list \<Rightarrow> int \<Rightarrow> (u8 list \<times> int \<times> int) option" where
  "makeBootloaderDataPacket output destAddress data dataLen =
     (let dataLen = (if dataLen > 0x3F8 then 0x3F8 else dataLen) in
      if 0 \<le> dataLen \<and> nat dataLen \<le> length data \<and> 0x400 \<le> length output
      then let bytes = take (nat dataLen) data;
               checksum = sum_list (map uint bytes) + sum_list (map uint (packet_header destAddress))
           in Some (packet_header destAddress @ bytes @ replicate (0x3F8 - nat dataLen) 0
                      @ [word_of_int (drop_bit 8 checksum AND 0xFF), word_of_int (checksum AND 0xFF)]
                      @ drop 0x400 output,
                    checksum, dataLen)
      else None)"

text \<open>
  The retry loop of one chunk (lines 735 to 744); the result is the value of
  \<open>try\<close> when the loop is left.
\<close>

function upload_retry :: "device \<Rightarrow> int \<Rightarrow> nat \<Rightarrow> zephyr_data \<Rightarrow> (nat \<times> zephyr_data) option" where
  "upload_retry dev checksum try mt =
     (if try < 5 then do {
        mt1 \<leftarrow> mt_tx mt NORMAL_SPEED (OutputPacket mt) 0x400;
        (ok, mt2) \<leftarrow> verifyUpload dev (udelay 300 mt1) checksum;
        if ok then Some (try, mt2) else upload_retry dev checksum (try + 1) mt2
      }
      else Some (try, mt))"
  by pat_completeness auto
termination
  by (relation "measure (\<lambda>(dev, checksum, try, mt). 5 - try)") auto

text \<open>
  The loop over the chunks (lines 725 to 752); \<open>data\<close> is the offset of the
  cursor in \<open>firmware\<close>.
\<close>

function loadASpeedFirmware_loop ::
  "device \<Rightarrow> u8 list \<Rightarrow> u32 \<Rightarrow> nat \<Rightarrow> int \<Rightarrow> zephyr_data \<Rightarrow> (bool \<times> zephyr_data) option" where
  "loadASpeedFirmware_loop dev firmware address data left mt =
     (if left > 0 then
        let toUpload = (if left > 0x3F8 then 0x3F8 else left) in do {
          (pkt, checksum, n) \<leftarrow>
             makeBootloaderDataPacket (OutputPacket mt) address (drop data firmware) toUpload;
          (try, mt1) \<leftarrow> upload_retry dev checksum 0 (mt\<lparr>OutputPacket := pkt\<rparr>);
          if try = 5 then Some (False, mt1)
          else loadASpeedFirmware_loop dev firmware (address + word_of_int toUpload)
                 (data + nat toUpload) (left - toUpload) mt1
        }
      else do {
        mt1 \<leftarrow> sendExecutePacket dev mt;
        Some (True, mt1)
      })"
  by pat_completeness auto
termination
  by (relation "measure (\<lambda>(dev, firmware, address, data, left, mt). nat left)")
     (auto split: if_splits)

definition loadASpeedFirmware :: "device \<Rightarrow> zephyr_data \<Rightarrow> u8 list \<Rightarrow> int \<Rightarrow> (bool \<times> zephyr_data) option" where
  "loadASpeedFirmware dev mt firmware len =
     loadASpeedFirmware_loop dev firmware 0x40000000 0 len mt"

text \<open>The retry loop of the main image (lines 767 to 776); the result is the final \<open>i\<close>.\<close>

function main_retry ::
  "device \<Rightarrow> u8 list \<Rightarrow> int \<Rightarrow> int \<Rightarrow> nat \<Rightarrow> zephyr_data \<Rightarrow> (nat \<times> zephyr_data) option" where
  "main_retry dev firmware len checksum i mt =
     (if i < 5 then do {
        mt1 \<leftarrow> sendBlankDataPacket dev mt;
        mt2 \<leftarrow> mt_tx mt1 FAST_SPEED firmware len;
        (ok, mt3) \<leftarrow> verifyUpload dev mt2 checksum;
        if ok then Some (i, mt3) else main_retry dev firmware len checksum (i + 1) mt3
      }
      else Some (i, mt))"
  by pat_completeness auto
termination
  by (relation "measure (\<lambda>(dev, firmware, len, checksum, i, mt). 5 - i)") auto

definition loadMainFirmware :: "device \<Rightarrow> zephyr_data \<Rightarrow> u8 list \<Rightarrow> int \<Rightarrow> (bool \<times> zephyr_data) option" where
  "loadMainFirmware dev mt firmware len =
     (if nat len \<le> length firmware
      then do {
        (i, mt1) \<leftarrow> main_retry dev firmware len
                      (sum_list (map uint (take (nat len) firmware))) 0 mt;
        if i = 5 then Some (False, mt1)
        else do {
          mt2 \<leftarrow> sendExecutePacket dev mt1;
          Some (True, mt2)
        }
      }
      else None)"

subsection \<open>The setup sequence\<close>

definition MT_INFO_FAMILYID :: int where "MT_INFO_FAMILYID = 0xD1"
definition MT_INFO_SENSORINFO :: int where "MT_INFO_SENSORINFO = 0xD3"
definition MT_INFO_SENSORREGIONDESC :: int where "MT_INFO_SENSORREGIONDESC = 0xD0"
definition MT_INFO_SENSORREGIONPARAM :: int where "MT_INFO_SENSORREGIONPARAM = 0xA1"
definition MT_INFO_SENSORDIM :: int where "MT_INFO_SENSORDIM = 0xD9"

text \<open>
  What the kernel decides during setup: the bytes found in freshly allocated
  memory (\<open>kmalloc\<close> does not clear it), whether \<open>input_allocate_device\<close>
  succeeds, and the status of \<open>input_register_device\<close>. \<open>kmalloc\<close> itself is
  taken to succeed (the driver does not check it), \<open>request_irq\<close> only leads to
  a \<open>printk\<close>.
\<close>

record kernel_env =
  junk :: "u8 list"
  input_allocated :: bool
  input_register_ret :: int

definition kmalloc :: "kernel_env \<Rightarrow> nat \<Rightarrow> u8 list" where
  "kmalloc env n = take n (junk env @ replicate n 0)"

text \<open>\<open>kfree\<close> of the four packet buffers: they cannot be accessed afterwards.\<close>

definition free_packets :: "zephyr_data \<Rightarrow> zephyr_data" where
  "free_packets mt =
     mt\<lparr>InputPacket := [], OutputPacket := [], GetInfoPacket := [], GetResultPacket := []\<rparr>"

definition set_abs_params :: "zephyr_data \<Rightarrow> zephyr_data" where
  "set_abs_params mt =
     (let w = SensorWidth mt; h = SensorHeight mt; m = max h w in
      mt\<lparr>trace := trace mt @
        [SetAbsParams ABS_X 0 w,
         SetAbsParams ABS_Y 0 h,
         SetAbsParams ABS_MT_TOUCH_MAJOR 0 m,
         SetAbsParams ABS_MT_TOUCH_MINOR 0 m,
         SetAbsParams ABS_MT_WIDTH_MAJOR 0 m,
         SetAbsParams ABS_MT_WIDTH_MINOR 0 m,
         SetAbsParams ABS_MT_ORIENTATION (- MAX_FINGER_ORIENTATION) MAX_FINGER_ORIENTATION,
         SetAbsParams ABS_MT_POSITION_X 0 w,
         SetAbsParams ABS_MT_POSITION_Y 0 h,
         SetAbsParams ABS_MT_TRACKING_ID 0 32]\<rparr>)"

text \<open>Lines 179 to 232: allocation, power cycle, the two firmware loads, the version query.\<close>

definition setup_firmware ::
  "device \<Rightarrow> kernel_env \<Rightarrow> zephyr_data \<Rightarrow> u8 list \<Rightarrow> int \<Rightarrow> u8 list \<Rightarrow> int
     \<Rightarrow> (int \<times> zephyr_data) option" where
  "setup_firmware dev env mt ASpeedFirmware ASpeedFirmwareLen mainFirmware mainFirmwareLen = do {
     let mt = mt\<lparr>OutputPacket := kmalloc env 0x400, InputPacket := kmalloc env 0x400,
                 GetInfoPacket := replicate 0x400 0x82, GetResultPacket := replicate 0x400 0x68\<rparr>;
     let mt = mt\<lparr>trace := trace mt @ [GpioOut False]\<rparr>;
     let mt = msleep 200 mt;
     let mt = mt\<lparr>trace := trace mt @ [GpioOut True]\<rparr>;
     let mt = msleep 15 mt;
     (ok, mt) \<leftarrow> loadASpeedFirmware dev mt ASpeedFirmware ASpeedFirmwareLen;
     if \<not> ok then Some (- 1, free_packets mt)
     else do {
       let mt = msleep 1 mt;
       (ok, mt) \<leftarrow> loadMainFirmware dev mt mainFirmware mainFirmwareLen;
       if \<not> ok then Some (- 1, free_packets mt)
       else do {
         let mt = msleep 1 mt;
         (ok, mt) \<leftarrow> determineInterfaceVersion dev mt;
         if \<not> ok then Some (- 1, free_packets mt) else Some (0, mt)
       }
     }
   }"

text \<open>Lines 234 to 305: the five reports. The report buffer is local to the function.\<close>

definition setup_reports :: "device \<Rightarrow> kernel_env \<Rightarrow> zephyr_data \<Rightarrow> (int \<times> zephyr_data) option" where
  "setup_reports dev env mt = do {
     let reportBuffer = kmalloc env (nat (MaxPacketSize mt));
     ((ok, reportBuffer, reportLen), mt) \<leftarrow> getReport dev mt MT_INFO_FAMILYID reportBuffer 0;
     if \<not> ok then Some (- 1, free_packets mt)
     else do {
       familyID \<leftarrow> rd8 reportBuffer 0;
       let mt = mt\<lparr>FamilyID := uint familyID\<rparr>;
       ((ok, reportBuffer, reportLen), mt) \<leftarrow>
          getReport dev mt MT_INFO_SENSORINFO reportBuffer reportLen;
       if \<not> ok then Some (- 1, free_packets mt)
       else do {
         b0 \<leftarrow> rd8 reportBuffer 0;
         b1 \<leftarrow> rd8 reportBuffer 1;
         b2 \<leftarrow> rd8 reportBuffer 2;
         b3 \<leftarrow> rd8 reportBuffer 3;
         b4 \<leftarrow> rd8 reportBuffer 4;
         let mt = mt\<lparr>SensorColumns := uint b2, SensorRows := uint b1,
                     BCDVersion := be16 b3 b4, Endianness := uint b0\<rparr>;
         ((ok, reportBuffer, reportLen), mt) \<leftarrow>
            getReport dev mt MT_INFO_SENSORREGIONDESC reportBuffer reportLen;
         if \<not> ok then Some (- 1, free_packets mt)
         else do {
           let mt = mt\<lparr>SensorRegionDescriptorLen := reportLen,
                       SensorRegionDescriptor := take (nat reportLen) reportBuffer\<rparr>;
           ((ok, reportBuffer, reportLen), mt) \<leftarrow>
              getReport dev mt MT_INFO_SENSORREGIONPARAM reportBuffer reportLen;
           if \<not> ok then Some (- 1, (free_packets mt)\<lparr>SensorRegionDescriptor := []\<rparr>)
           else do {
             let mt = mt\<lparr>SensorRegionParamLen := reportLen,
                         SensorRegionParam := take (nat reportLen) reportBuffer\<rparr>;
             ((ok, reportBuffer, reportLen), mt) \<leftarrow>
                getReport dev mt MT_INFO_SENSORDIM reportBuffer reportLen;
             if \<not> ok
             then Some (- 1, (free_packets mt)\<lparr>SensorRegionDescriptor := [],
                                                  SensorRegionParam := []\<rparr>)
             else do {
               (w, h) \<leftarrow> sensor_geometry reportBuffer;
               Some (0, mt\<lparr>SensorWidth := w, SensorHeight := h\<rparr>)
             }
           }
         }
       }
     }
   }"

text \<open>Lines 326 to 375: the input device, then the poll token and the flags.\<close>

definition setup_input :: "kernel_env \<Rightarrow> zephyr_data \<Rightarrow> int \<times> zephyr_data" where
  "setup_input env mt =
     (if \<not> input_allocated env
      then (- 1, (free_packets mt)\<lparr>SensorRegionDescriptor := [], SensorRegionParam := []\<rparr>)
      else let mt = set_abs_params mt in
        if input_register_ret env \<noteq> 0
        then (- 1, (free_packets mt)\<lparr>SensorRegionDescriptor := [], SensorRegionParam := []\<rparr>)
        else (0, mt\<lparr>CurNOP := 0x64, irq_count := 0, firmware_loaded := True\<rparr>))"

text \<open>
  \<open>zephyr_setup\<close>: the three parts above, each ending the setup with \<open>-1\<close> when
  it fails, then the first frame read (line 377), whose result is not looked at.
\<close>

definition zephyr_setup ::
  "device \<Rightarrow> kernel_env \<Rightarrow> zephyr_data \<Rightarrow> u8 list \<Rightarrow> int \<Rightarrow> u8 list \<Rightarrow> int
     \<Rightarrow> (int \<times> zephyr_data) option" where
  "zephyr_setup dev env mt ASpeedFirmware ASpeedFirmwareLen mainFirmware mainFirmwareLen = do {
     (ret, mt) \<leftarrow> setup_firmware dev env mt ASpeedFirmware ASpeedFirmwareLen
                     mainFirmware mainFirmwareLen;
     if ret \<noteq> 0 then Some (ret, mt)
     else do {
       (ret, mt) \<leftarrow> setup_reports dev env mt;
       if ret \<noteq> 0 then Some (ret, mt)
       else case setup_input env mt of
         (ret, mt) \<Rightarrow>
           if ret \<noteq> 0 then Some (ret, mt)
           else do {
             (r, mt) \<leftarrow> readFrame dev mt;
             Some (0, mt)
           }
     }
   }"

text \<open>
  \<open>zephyr_probe\<close> (lines 1036 to 1039) sets the flag, the pressure floor and
  the interrupt count; its \<open>memset\<close> has a zero length, so every other field
  holds what the allocation held. Those fields are zero and empty here.
\<close>

definition probe_state :: zephyr_data where
  "probe_state =
     \<lparr>OutputPacket = [], InputPacket = [], GetInfoPacket = [], GetResultPacket = [],
      InterfaceVersion = 0, MaxPacketSize = 0, FamilyID = 0, SensorWidth = 0,
      SensorHeight = 0, SensorColumns = 0, SensorRows = 0, BCDVersion = 0, Endianness = 0,
      SensorRegionDescriptor = [], SensorRegionDescriptorLen = 0,
      SensorRegionParam = [], SensorRegionParamLen = 0,
      min_pressure = 100, CurNOP = 0, firmware_loaded = False, irq_count = 0, trace = []\<rparr>"

subsection \<open>Notions used in the statements\<close>

text \<open>
  An example state: the probe state with the four packets allocated as
  \<open>zephyr_setup\<close> allocates them, a negotiated maximum packet size of 1000 and
  the poll token at its first value.
\<close>

definition example_state :: zephyr_data where
  "example_state =
     probe_state\<lparr>OutputPacket := replicate 0x400 0, InputPacket := replicate 0x400 0,
                 GetInfoPacket := replicate 0x400 0x82, GetResultPacket := replicate 0x400 0x68,
                 MaxPacketSize := 1000, SensorHeight := 15936, CurNOP := 0x64,
                 firmware_loaded := True\<rparr>"

text \<open>The buffer after the two force fields of the record at \<open>finger\<close> are floored.\<close>

definition floored :: "u8 \<Rightarrow> u8 list \<Rightarrow> nat \<Rightarrow> u8 list" where
  "floored F buf finger =
     (let a = floor_force F (le16 (buf ! (finger + 18)) (buf ! (finger + 19)));
          b = floor_force F (le16 (buf ! (finger + 20)) (buf ! (finger + 21)))
      in buf[finger + 18 := lo8 a, finger + 19 := hi8 a,
             finger + 20 := lo8 b, finger + 21 := hi8 b])"

text \<open>The reports of the record at \<open>finger\<close>, in terms of the buffer before the step.\<close>

definition finger_events :: "zephyr_data \<Rightarrow> nat \<Rightarrow> event list" where
  "finger_events mt finger =
     (let buf = InputPacket mt;
          a = floor_force (min_pressure mt) (le16 (buf ! (finger + 18)) (buf ! (finger + 19)));
          b = floor_force (min_pressure mt) (le16 (buf ! (finger + 20)) (buf ! (finger + 21)))
      in if a > 0 \<or> b > 0
         then [ReportAbs ABS_MT_TOUCH_MAJOR (uint a),
               ReportAbs ABS_MT_TOUCH_MINOR (uint b),
               ReportAbs ABS_MT_WIDTH_MAJOR (uint (le16 (buf ! (finger + 12)) (buf ! (finger + 13)))),
               ReportAbs ABS_MT_WIDTH_MINOR (uint (le16 (buf ! (finger + 14)) (buf ! (finger + 15)))),
               ReportAbs ABS_MT_ORIENTATION
                 (16384 - uint (le16 (buf ! (finger + 16)) (buf ! (finger + 17)))),
               ReportAbs ABS_MT_TRACKING_ID (uint (buf ! finger)),
               ReportAbs ABS_MT_POSITION_X (sint (le16 (buf ! (finger + 4)) (buf ! (finger + 5)))),
               ReportAbs ABS_MT_POSITION_Y
                 (SensorHeight mt - sint (le16 (buf ! (finger + 6)) (buf ! (finger + 7))))]
         else [])"

text \<open>The events that the loop over the fingers can produce.\<close>

fun is_mt_event :: "event \<Rightarrow> bool" where
  "is_mt_event MtSync = True"
| "is_mt_event (ReportAbs c v) = (c \<noteq> ABS_X \<and> c \<noteq> ABS_Y)"
| "is_mt_event _ = False"

declare fingers_loop.simps [simp del]
declare readFrameLength_loop.simps [simp del]
declare readResultData_loop.simps [simp del]
declare readFrame_loop.simps [simp del]
declare getReportInfo_loop.simps [simp del]
declare getReport_loop.simps [simp del]
declare determineInterfaceVersion_loop.simps [simp del]
declare upload_retry.simps [simp del]
declare loadASpeedFirmware_loop.simps [simp del]
declare main_retry.simps [simp del]

text \<open>
  Two frames at offset 1 of \<open>InputPacket\<close>, both with a 24-byte header and two
  fingers. In the first the stride is 0, so both records are the same bytes;
  its minor force is 150. In the second the stride is 28; the first finger
  has a minor force of 50, the second a major force of 200.
\<close>

definition overlapping_frame :: zephyr_data where
  "overlapping_frame =
     example_state\<lparr>InputPacket := (replicate 1024 0)[3 := 24, 17 := 2, 18 := 0, 45 := 150]\<rparr>"

definition two_finger_frame :: zephyr_data where
  "two_finger_frame =
     example_state\<lparr>InputPacket :=
       (replicate 1024 0)[3 := 24, 17 := 2, 18 := 28, 45 := 50, 71 := 200]\<rparr>"

text \<open>The other value of the poll token (lines 499 to 502).\<close>

definition flip_nop :: "int \<Rightarrow> int" where
  "flip_nop c = (if c = 0x64 then 0x65 else 0x64)"

text \<open>
  Frames of two fingers behind a header of 24 bytes, at offset 1 of the packet
  buffer: with records 28 bytes apart (the size of \<open>FingerData\<close>), and with
  records 2 and 4 bytes apart, where the records overlap.
\<close>

definition floor_frame :: zephyr_data where
  "floor_frame =
     example_state\<lparr>InputPacket :=
       (replicate 1024 0)[3 := 24, 17 := 2, 18 := 28, 43 := 100, 45 := 100, 71 := 101]\<rparr>"

definition stride2_frame :: zephyr_data where
  "stride2_frame =
     example_state\<lparr>InputPacket := (replicate 1024 0)[3 := 24, 17 := 2, 18 := 2, 45 := 101]\<rparr>"



text \<open>\<open>n\<close> calls of \<open>readFrame\<close> in a row, with their results in call order.\<close>

fun read_cycles :: "device \<Rightarrow> nat \<Rightarrow> zephyr_data \<Rightarrow> (int list \<times> zephyr_data) option" where
  "read_cycles dev 0 mt = Some ([], mt)"
| "read_cycles dev (Suc n) mt = do {
     (r, mt1) \<leftarrow> readFrame dev mt;
     (rs, mt2) \<leftarrow> read_cycles dev n mt1;
     Some (r # rs, mt2)
   }"

text \<open>
  A device that answers the \<open>k\<close>-th exchange with the \<open>k\<close>-th response of a
  script, and with zero bytes where the script says nothing.
\<close>

fun is_txrx :: "event \<Rightarrow> bool" where
  "is_txrx (SpiTxRx s out) = True"
| "is_txrx _ = False"

definition scripted :: "u8 list list \<Rightarrow> device" where
  "scripted script tr i =
     (let k = length (filter is_txrx tr) - 1
      in if k < length script \<and> i < length (script ! k) then script ! k ! i else 0)"

text \<open>
  A frame-length response announcing 16 bytes, and a 17-byte frame-data
  response: sync byte, a header with type 0x44 and header length 12, and the
  checksum 0x0050 of the 14 payload bytes.
\<close>

definition length16_response :: "u8 list" where
  "length16_response = [0xAA, 0, 0, 0, 0, 16, 0, 16]"

definition frame16_response :: "u8 list" where
  "frame16_response = [0xAA, 0x44, 0, 12, 0, 0, 0, 0, 0, 0, 0, 0, 0, 0, 0, 0, 0x50]"

text \<open>
  States whose input packet already holds, beyond the 17 bytes that a frame
  of length 16 overwrites, a finger count of 1, a stride of 28 and a finger
  record at offset 13 with minor force 150; the minor size is 0 in the first
  and 5 in the second.
\<close>

definition stale_finger_state :: zephyr_data where
  "stale_finger_state =
     example_state\<lparr>InputPacket := (replicate 1024 0)[17 := 1, 18 := 28, 33 := 150]\<rparr>"

definition stale_sized_finger_state :: zephyr_data where
  "stale_sized_finger_state =
     example_state\<lparr>InputPacket := (replicate 1024 0)[17 := 1, 18 := 28, 27 := 5, 33 := 150]\<rparr>"

definition outcome :: "(int \<times> zephyr_data) option \<Rightarrow> (int \<times> int \<times> event list) option" where
  "outcome res = (case res of None \<Rightarrow> None | Some (r, mt) \<Rightarrow> Some (r, CurNOP mt, trace mt))"


definition frame_length_request :: "zephyr_data \<Rightarrow> event" where
  "frame_length_request mt = SpiTxRx NORMAL_SPEED (replicate 8 (word_of_int (CurNOP mt)))"

definition frame_data_request :: "zephyr_data \<Rightarrow> int \<Rightarrow> event" where
  "frame_data_request mt len = SpiTxRx NORMAL_SPEED (take (nat len) (GetResultPacket mt))"

text \<open>A kernel in which the input device is allocated and registered.\<close>

definition ready_env :: kernel_env where
  "ready_env = \<lparr>junk = [], input_allocated = True, input_register_ret = 0\<rparr>"

section \<open>Properties\<close>

subsection \<open>Bytes and words\<close>

lemma unat_u8_less: "unat (b :: u8) < 256"
  using unsigned_less [of b, where 'a = nat] by simp

lemma unat_u16_less: "unat (b :: u16) < 65536"
  using unsigned_less [of b, where 'a = nat] by simp

lemma le16_unat: "unat (le16 lo hi) = unat lo + 256 * unat hi"
proof -
  have "unat lo + 256 * unat hi < 2 ^ 16"
    using unat_u8_less [of lo] unat_u8_less [of hi] by simp
  then show ?thesis
    by (simp only: le16_def unat_of_nat) simp
qed

lemma le16_split: "le16 (lo8 v) (hi8 v) = v"
proof -
  have a: "unat (lo8 v) = unat v mod 256"
    by (simp only: lo8_def unat_of_nat) simp
  have "unat v div 256 < 256" using unat_u16_less [of v] by simp
  then have b: "unat (hi8 v) = unat v div 256"
    by (simp only: hi8_def unat_of_nat) simp
  have "unat (le16 (lo8 v) (hi8 v)) = unat v"
    by (simp only: le16_unat a b) simp
  then show ?thesis by (simp only: word_unat_eq_iff)
qed

lemma unat_ucast_u8_u16: "unat (ucast (b :: u8) :: u16) = unat b"
proof -
  have "unat b < 2 ^ 16" using unat_u8_less [of b] by simp
  then show ?thesis by (simp add: unsigned_ucast_eq take_bit_nat_eq_self)
qed

lemma floor_force_eq: "floor_force F (ucast F) = 0"
  by (simp add: floor_force_def unat_ucast_u8_u16)

lemma floor_force_succ: "floor_force F (ucast F + 1) = 1"
proof -
  have "unat (ucast F + 1 :: u16) = unat F + 1"
    using unat_u8_less [of F]
    by (simp add: unat_word_ariths unat_ucast_u8_u16)
  then show ?thesis by (simp add: floor_force_def)
qed

lemma floor_force_pos: "0 < floor_force F v \<longleftrightarrow> unat F < unat v"
  by (auto simp add: floor_force_def word_gt_0 unat_ucast_u8_u16 word_unat_eq_iff
      unat_sub word_le_nat_alt)

subsection \<open>One step of the finger loop\<close>

lemma finger_step_Some:
  assumes "dat \<le> finger" and "finger + 21 < length (InputPacket mt)"
  shows "finger_step mt dat finger =
     Some (mt\<lparr>InputPacket := floored (min_pressure mt) (InputPacket mt) finger,
              trace := trace mt @ finger_events mt finger @ [MtSync]\<rparr>,
           finger + unat (InputPacket mt ! (dat + 17)))"
  using assms
  by (simp add: finger_step_def report_finger_def rd16_def wr16_def rd8_def field_offsets
      le16_split floored_def finger_events_def Let_def MAX_FINGER_ORIENTATION_def add.commute)

lemma rd16_floored:
  assumes "finger + 21 < length buf"
  shows "rd16 (floored F buf finger) (finger + 18) =
           Some (floor_force F (le16 (buf ! (finger + 18)) (buf ! (finger + 19))))"
    and "rd16 (floored F buf finger) (finger + 20) =
           Some (floor_force F (le16 (buf ! (finger + 20)) (buf ! (finger + 21))))"
  using assms by (simp_all add: rd16_def floored_def Let_def le16_split add.commute)

subsection \<open>Sensor geometry\<close>

lemma sint_small: "uint (w :: u32) < 2 ^ 31 \<Longrightarrow> sint w = uint w"
proof -
  assume a: "uint w < 2 ^ 31"
  have "signed_take_bit 31 (uint w) = uint w"
  proof (rule signed_take_bit_int_eq_self)
    show "- (2 ^ 31) \<le> uint w" by (rule order_trans [of _ 0]) simp_all
    show "uint w < 2 ^ 31" by (rule a)
  qed
  then show ?thesis by (simp add: sint_uint)
qed

lemma trunc_div_nonneg: "0 \<le> a \<Longrightarrow> trunc_div a 73 = a div 73"
  by (simp add: trunc_div_def)

lemma scaled_exact:
  fixes raw c :: u32
  assumes "raw \<le> c" and "uint c \<le> 20000"
  shows "sint (((c - raw) * 84) div 73) = trunc_div ((uint c - uint raw) * 84) 73"
proof -
  have le: "uint raw \<le> uint c" using assms(1) by (simp add: word_le_def)
  have d: "uint (c - raw) = uint c - uint raw"
    using assms(1) by (simp add: uint_sub_if' word_le_def)
  have nn: "0 \<le> uint raw" by simp
  have "uint c - uint raw \<le> 20000" using le assms(2) nn by linarith
  then have "(uint c - uint raw) * 84 \<le> 20000 * 84" by (rule mult_right_mono) simp
  then have b1: "(uint c - uint raw) * 84 \<le> 1680000" by simp
  then have b: "(uint c - uint raw) * 84 < 4294967296" by simp
  have b0: "0 \<le> (uint c - uint raw) * 84"
    using le by simp
  from b have "uint (c - raw) * uint (84 :: u32) < 2 ^ LENGTH(32)"
    by (simp add: d)
  then have "uint ((c - raw) * 84) = uint (c - raw) * uint (84 :: u32)"
    by (rule uint_mult_lem [THEN iffD1])
  then have m: "uint ((c - raw) * 84) = (uint c - uint raw) * 84"
    by (simp only: d) simp
  have q: "uint (((c - raw) * 84) div 73) = ((uint c - uint raw) * 84) div 73"
    by (simp only: uint_div m) simp
  have "((uint c - uint raw) * 84) div 73 \<le> 1680000 div 73"
    using b1 by (rule zdiv_mono1) simp
  then have "((uint c - uint raw) * 84) div 73 < 2 ^ 31"
    by simp
  then have "uint (((c - raw) * 84) div 73) < 2 ^ 31"
    by (simp only: q)
  then have "sint (((c - raw) * 84) div 73) = uint (((c - raw) * 84) div 73)"
    by (rule sint_small)
  then have "sint (((c - raw) * 84) div 73) = ((uint c - uint raw) * 84) div 73"
    by (simp only: q)
  moreover have "trunc_div ((uint c - uint raw) * 84) 73 = ((uint c - uint raw) * 84) div 73"
    using b0 by (rule trunc_div_nonneg)
  ultimately show ?thesis by (simp only:)
qed
text \<open>
  Claim C6, as amended. The subtraction, the multiplication and the division
  are unsigned 32-bit operations. For a raw width up to 9000 and a raw height
  up to 13850 they agree with the formula on unbounded integers,
  \<open>(9000 - raw_x) * 84 / 73\<close> and \<open>(13850 - raw_y) * 84 / 73\<close> with truncating
  division; the fields are read from the first eight bytes of the report
  buffer. In particular a raw width of 9000 gives width 0, a raw height of
  13850 gives height 0, and a raw width of 0 gives width 10356.
\<close>

theorem sensor_geometry_in_range:
  "(raw_x \<le> 9000 \<longrightarrow> sensor_width_of raw_x = spec_width (uint raw_x)) \<and>
   (raw_y \<le> 13850 \<longrightarrow> sensor_height_of raw_y = spec_height (uint raw_y)) \<and>
   (rd32 reportBuffer 0 = Some raw_x \<and> rd32 reportBuffer 4 = Some raw_y \<longrightarrow>
      sensor_geometry reportBuffer = Some (sensor_width_of raw_x, sensor_height_of raw_y)) \<and>
   sensor_width_of 9000 = 0 \<and> sensor_height_of 13850 = 0 \<and> sensor_width_of 0 = 10356"
proof -
  have w: "raw_x \<le> 9000 \<Longrightarrow> sensor_width_of raw_x = spec_width (uint raw_x)"
    using scaled_exact [of raw_x 9000] by (simp add: sensor_width_of_def spec_width_def)
  have h: "raw_y \<le> 13850 \<Longrightarrow> sensor_height_of raw_y = spec_height (uint raw_y)"
    using scaled_exact [of raw_y 13850] by (simp add: sensor_height_of_def spec_height_def)
  have c: "sensor_width_of 9000 = 0" "sensor_height_of 13850 = 0" "sensor_width_of 0 = 10356"
    by (simp_all add: sensor_width_of_def sensor_height_of_def)
  show ?thesis using w h c by (simp add: sensor_geometry_def)
qed

theorem sensor_geometry_in_range_witness:
  "sensor_geometry [0, 0, 0, 0, 0x1A, 0x36, 0, 0] = Some (spec_width 0, spec_height 13850)"
  using sensor_geometry_in_range [of 0 13850 "[0, 0, 0, 0, 0x1A, 0x36, 0, 0]"]
  by (simp add: rd32_def le32_def)

text \<open>
  Claim C6 as stated fails beyond that range: a raw width of 9001 (bytes
  \<open>29 23 00 00\<close>) wraps around in the unsigned subtraction and gives the width
  58835167, where the formula on integers gives \<open>-1\<close>.
\<close>

theorem sensor_geometry_wraps:
  "sensor_geometry [0x29, 0x23, 0, 0, 0x1A, 0x36, 0, 0] = Some (58835167, 0) \<and>
   spec_width 9001 = - 1 \<and> spec_height 13850 = 0"
  by (simp add: sensor_geometry_def rd32_def le32_def sensor_width_of_def sensor_height_of_def
      spec_width_def spec_height_def trunc_div_def)

subsection \<open>The pressure-floor attribute\<close>

text \<open>
  Claim C9. When \<open>sscanf\<close> has parsed a value (\<open>ret > 0\<close>): a value from 0 to 254
  becomes the pressure floor; a value of 255 or more leaves the state as it
  was (whatever \<open>ret\<close> is).
\<close>

theorem min_pressure_store_range:
  "(0 < ret \<and> new_val < 255 \<longrightarrow>
      (\<exists>mt'. zephyr_min_pressure_store mt ret new_val = (ret, mt') \<and>
             unat (min_pressure mt') = unat new_val)) \<and>
   (255 \<le> new_val \<longrightarrow> snd (zephyr_min_pressure_store mt ret new_val) = mt)"
proof (intro conjI impI)
  assume a: "0 < ret \<and> new_val < 255"
  then have "unat new_val < 255" by (simp add: word_less_nat_alt)
  then have "unat (ucast new_val :: u8) = unat new_val"
    by (simp add: unsigned_ucast_eq take_bit_nat_eq_self)
  moreover have "\<not> 255 \<le> new_val" using a by (simp add: not_le)
  ultimately show "\<exists>mt'. zephyr_min_pressure_store mt ret new_val = (ret, mt') \<and>
             unat (min_pressure mt') = unat new_val"
    using a by (simp add: zephyr_min_pressure_store_def)
next
  assume "255 \<le> new_val"
  then show "snd (zephyr_min_pressure_store mt ret new_val) = mt"
    by (simp add: zephyr_min_pressure_store_def)
qed

theorem min_pressure_store_range_witness:
  "unat (min_pressure (snd (zephyr_min_pressure_store probe_state 1 254))) = 254 \<and>
   snd (zephyr_min_pressure_store probe_state 1 255) = probe_state"
  using min_pressure_store_range [of 1 254 probe_state]
    min_pressure_store_range [of 1 255 probe_state]
  by auto

subsection \<open>The loop over the fingers and the single-touch report\<close>

lemma finger_step_bounds:
  assumes "finger_step mt dat finger = Some r"
  shows "finger + 21 < length (InputPacket mt)"
  using assms
  by (auto simp add: finger_step_def rd16_def wr16_def field_offsets
      split: if_splits Option.bind_splits)

lemma length_floored [simp]: "length (floored F buf finger) = length buf"
  by (simp add: floored_def Let_def)

lemma floored_below: "k < finger + 18 \<Longrightarrow> floored F buf finger ! k = buf ! k"
  by (simp add: floored_def Let_def)

lemma finger_events_mt: "\<forall>e \<in> set (finger_events mt finger). is_mt_event e"
  by (auto simp add: finger_events_def Let_def)

text \<open>What the loop over the fingers changes: the buffer from the force fields of the
  current record on, and the trace.\<close>

lemma fingers_loop_frame:
  assumes "fingers_loop mt dat finger i = Some mt'" and "dat \<le> finger"
  shows "\<exists>buf evs. mt' = mt\<lparr>InputPacket := buf, trace := trace mt @ evs\<rparr> \<and>
           length buf = length (InputPacket mt) \<and>
           (\<forall>k < finger + 18. buf ! k = InputPacket mt ! k) \<and>
           (\<forall>e \<in> set evs. is_mt_event e)"
  using assms
proof (induction mt dat finger i arbitrary: mt' rule: fingers_loop.induct)
  case (1 mt dat finger i)
  show ?case
  proof (cases "i < unat (InputPacket mt ! (dat + 16))")
    case False
    with "1.prems" have "mt' = mt"
      by (simp add: fingers_loop.simps [of mt dat finger i] rd8_def field_offsets
          split: if_splits Option.bind_splits)
    then show ?thesis
      by (intro exI [of _ "InputPacket mt"] exI [of _ "[]"]) simp
  next
    case True
    from "1.prems" obtain n where n: "rd8 (InputPacket mt) (dat + hdr_numFingers) = Some n"
      by (auto simp add: fingers_loop.simps [of mt dat finger i] split: Option.bind_splits)
    then have n': "n = InputPacket mt ! (dat + 16)"
      by (simp add: rd8_def field_offsets split: if_splits)
    from "1.prems" n True n' obtain mt1 f1 where
      st: "finger_step mt dat finger = Some (mt1, f1)" and
      rest: "fingers_loop mt1 dat f1 (i + 1) = Some mt'"
      by (auto simp add: fingers_loop.simps [of mt dat finger i] split: Option.bind_splits)
    have inb: "finger + 21 < length (InputPacket mt)"
      using st by (rule finger_step_bounds)
    from st have mt1: "mt1 = mt\<lparr>InputPacket := floored (min_pressure mt) (InputPacket mt) finger,
              trace := trace mt @ finger_events mt finger @ [MtSync]\<rparr>"
      and f1: "f1 = finger + unat (InputPacket mt ! (dat + 17))"
      using finger_step_Some [OF "1.prems"(2) inb] by simp_all
    have df: "dat \<le> f1" using f1 "1.prems"(2) by simp
    have lt: "i < unat n" using True n' by simp
    from "1.IH" [OF n lt st refl rest df]
    obtain buf evs where
      r: "mt' = mt1\<lparr>InputPacket := buf, trace := trace mt1 @ evs\<rparr>"
        "length buf = length (InputPacket mt1)"
        "\<forall>k < f1 + 18. buf ! k = InputPacket mt1 ! k"
        "\<forall>e \<in> set evs. is_mt_event e"
      by auto
    show ?thesis
    proof (intro exI [of _ buf] exI [of _ "finger_events mt finger @ [MtSync] @ evs"] conjI)
      show "mt' = mt\<lparr>InputPacket := buf,
          trace := trace mt @ finger_events mt finger @ [MtSync] @ evs\<rparr>"
        using r(1) mt1 by simp
      show "length buf = length (InputPacket mt)" using r(2) mt1 by simp
      show "\<forall>k < finger + 18. buf ! k = InputPacket mt ! k"
        using r(3) mt1 f1 by (simp add: floored_below)
      show "\<forall>e \<in> set (finger_events mt finger @ [MtSync] @ evs). is_mt_event e"
        using r(4) finger_events_mt [of mt finger] by auto
    qed
  qed
qed

lemma fingers_loop_stop:
  assumes "dat + 16 < length (InputPacket mt)"
    and "\<not> i < unat (InputPacket mt ! (dat + 16))"
  shows "fingers_loop mt dat finger i = Some mt"
  using assms by (subst fingers_loop.simps) (simp add: rd8_def field_offsets)

lemma floored_minor:
  assumes "finger + 21 < length buf"
  shows "floored F buf finger ! (finger + 20) =
           lo8 (floor_force F (le16 (buf ! (finger + 20)) (buf ! (finger + 21))))"
    and "floored F buf finger ! (finger + 21) =
           hi8 (floor_force F (le16 (buf ! (finger + 20)) (buf ! (finger + 21))))"
  using assms by (simp_all add: floored_def Let_def)

text \<open>The decoder on a frame with at least one finger: what it leaves of the first record.\<close>

lemma newPacket_first_finger:
  assumes np: "newPacket mt dat len = Some mt'"
    and nz: "InputPacket mt ! (dat + 16) \<noteq> 0"
    and sep: "InputPacket mt ! (dat + 16) = 1 \<or> 4 \<le> unat (InputPacket mt ! (dat + 17))"
  defines "f0 \<equiv> dat + unat (InputPacket mt ! (dat + 2))"
  shows "\<exists>buf evs. f0 + 21 < length (InputPacket mt) \<and> length buf = length (InputPacket mt) \<and>
           (\<forall>k < f0 + 18. buf ! k = InputPacket mt ! k) \<and>
           buf ! (f0 + 20) = floored (min_pressure mt) (InputPacket mt) f0 ! (f0 + 20) \<and>
           buf ! (f0 + 21) = floored (min_pressure mt) (InputPacket mt) f0 ! (f0 + 21) \<and>
           (\<forall>e \<in> set evs. is_mt_event e) \<and>
           report_single_touch (mt\<lparr>InputPacket := buf, trace := trace mt @ evs\<rparr>) dat \<noteq> None \<and>
           mt' = mt\<lparr>InputPacket := buf,
                     trace := trace mt @ evs @
                       the (report_single_touch (mt\<lparr>InputPacket := buf, trace := trace mt @ evs\<rparr>) dat)
                       @ [InputSync]\<rparr>"
proof -
  let ?buf = "InputPacket mt"
  let ?F = "min_pressure mt"
  from np obtain mt1 lev where
    h2: "dat + 2 < length ?buf" and
    lp: "fingers_loop mt dat f0 0 = Some mt1" and
    rs: "report_single_touch mt1 dat = Some lev" and
    mt': "mt' = mt1\<lparr>trace := trace mt1 @ lev @ [InputSync]\<rparr>"
    by (auto simp add: newPacket_def rd8_def field_offsets f0_def
        split: if_splits Option.bind_splits)
  from lp have h16: "dat + 16 < length ?buf"
    by (auto simp add: fingers_loop.simps [of mt dat f0 0] rd8_def field_offsets
        split: if_splits Option.bind_splits)
  have pos: "0 < unat (?buf ! (dat + 16))" using nz by (simp add: unat_gt_0)
  from lp h16 pos obtain mtA f1 where
    st: "finger_step mt dat f0 = Some (mtA, f1)" and
    rest: "fingers_loop mtA dat f1 (0 + 1) = Some mt1"
    by (auto simp add: fingers_loop.simps [of mt dat f0 0] rd8_def field_offsets
        split: if_splits Option.bind_splits)
  have d0: "dat \<le> f0" by (simp add: f0_def)
  have inb: "f0 + 21 < length ?buf" using st by (rule finger_step_bounds)
  from st have mtA: "mtA = mt\<lparr>InputPacket := floored ?F ?buf f0,
              trace := trace mt @ finger_events mt f0 @ [MtSync]\<rparr>"
      and f1: "f1 = f0 + unat (?buf ! (dat + 17))"
    using finger_step_Some [OF d0 inb] by simp_all
  have d1: "dat \<le> f1" using f1 d0 by simp
  from fingers_loop_frame [OF rest d1] obtain buf evs where
    r: "mt1 = mtA\<lparr>InputPacket := buf, trace := trace mtA @ evs\<rparr>"
       "length buf = length (InputPacket mtA)"
       "\<forall>k < f1 + 18. buf ! k = InputPacket mtA ! k"
       "\<forall>e \<in> set evs. is_mt_event e"
    by auto
  have low: "\<forall>k < f0 + 18. buf ! k = ?buf ! k"
    using r(3) mtA f1 by (simp add: floored_below)
  have minor: "buf ! (f0 + 20) = floored ?F ?buf f0 ! (f0 + 20) \<and>
               buf ! (f0 + 21) = floored ?F ?buf f0 ! (f0 + 21)"
  proof (cases "4 \<le> unat (?buf ! (dat + 17))")
    case True
    then show ?thesis using r(3) mtA f1 by simp
  next
    case False
    with sep have one: "?buf ! (dat + 16) = 1" by simp
    have "InputPacket mtA ! (dat + 16) = 1"
      using one mtA d0 by (simp add: floored_below)
    moreover have "dat + 16 < length (InputPacket mtA)" using h16 mtA by simp
    ultimately have "fingers_loop mtA dat f1 (0 + 1) = Some mtA"
      by (intro fingers_loop_stop) simp_all
    with rest have "mt1 = mtA" by simp
    then have "buf = InputPacket mtA"
      using r(1) by (metis zephyr_data.select_convs(2) zephyr_data.surjective zephyr_data.update_convs(2,22))
    then show ?thesis using mtA by simp
  qed
  let ?evs = "finger_events mt f0 @ [MtSync] @ evs"
  have mt1: "mt1 = mt\<lparr>InputPacket := buf, trace := trace mt @ ?evs\<rparr>"
    using r(1) mtA by simp
  show ?thesis
  proof (intro exI [of _ buf] exI [of _ ?evs] conjI)
    show "f0 + 21 < length ?buf" by (rule inb)
    show "length buf = length ?buf" using r(2) mtA by simp
    show "\<forall>k < f0 + 18. buf ! k = ?buf ! k" by (rule low)
    show "buf ! (f0 + 20) = floored ?F ?buf f0 ! (f0 + 20)" using minor by simp
    show "buf ! (f0 + 21) = floored ?F ?buf f0 ! (f0 + 21)" using minor by simp
    show "\<forall>e \<in> set ?evs. is_mt_event e"
      using r(4) finger_events_mt [of mt f0] by auto
    show "report_single_touch (mt\<lparr>InputPacket := buf, trace := trace mt @ ?evs\<rparr>) dat \<noteq> None"
      using rs mt1 by simp
    show "mt' = mt\<lparr>InputPacket := buf,
                     trace := trace mt @ ?evs @
                       the (report_single_touch (mt\<lparr>InputPacket := buf, trace := trace mt @ ?evs\<rparr>) dat)
                       @ [InputSync]\<rparr>"
      using mt' rs mt1 by simp
  qed
qed

lemma fingers_loop_step:
  assumes "dat \<le> finger" and "finger + 21 < length (InputPacket mt)"
    and "i < unat (InputPacket mt ! (dat + 16))"
  shows "fingers_loop mt dat finger i =
     fingers_loop (mt\<lparr>InputPacket := floored (min_pressure mt) (InputPacket mt) finger,
                      trace := trace mt @ finger_events mt finger @ [MtSync]\<rparr>)
       dat (finger + unat (InputPacket mt ! (dat + 17))) (i + 1)"
  using assms
  by (subst fingers_loop.simps) (simp add: rd8_def field_offsets finger_step_Some)

text \<open>
  Claim C10, as amended. For a decoded frame with at least one finger in which
  no later record overlaps the first record's minor force (there is one finger,
  or the stride \<open>fingerDataLen\<close> is at least 4): after the reports of the loop,
  which are multi-touch reports and markers only, the decoder reports the
  single-touch position and \<open>BTN_TOUCH\<close> (1 iff the minor size is positive)
  exactly when the first finger's raw minor force exceeds the pressure floor,
  and \<open>BTN_TOUCH\<close> 0 otherwise, whatever the other fingers report; the batch
  ends with the sync marker.
\<close>

theorem single_touch_after_floor:
  assumes "newPacket mt dat len = Some mt'"
    and "rd8 (InputPacket mt) (dat + hdr_numFingers) = Some numFingers" and "numFingers \<noteq> 0"
    and "rd8 (InputPacket mt) (dat + hdr_headerLen) = Some headerLen"
    and "rd8 (InputPacket mt) (dat + hdr_fingerDataLen) = Some fingerDataLen"
    and "numFingers = 1 \<or> 4 \<le> unat fingerDataLen"
    and "rd16 (InputPacket mt) (dat + unat headerLen + fd_force_minor) = Some force_minor"
    and "rd16 (InputPacket mt) (dat + unat headerLen + fd_x) = Some x"
    and "rd16 (InputPacket mt) (dat + unat headerLen + fd_y) = Some y"
    and "rd16 (InputPacket mt) (dat + unat headerLen + fd_size_minor) = Some size_minor"
  shows "\<exists>evs. (\<forall>e \<in> set evs. is_mt_event e) \<and>
           trace mt' = trace mt @ evs @
             (if unat (min_pressure mt) < unat force_minor
              then [ReportAbs ABS_X (sint x),
                    ReportAbs ABS_Y (SensorHeight mt - sint y),
                    ReportKey BTN_TOUCH (if size_minor > 0 then 1 else 0)]
              else [ReportKey BTN_TOUCH 0])
             @ [InputSync]"
proof -
  let ?buf = "InputPacket mt"
  let ?f0 = "dat + unat headerLen"
  have hdr: "?buf ! (dat + 16) = numFingers" "?buf ! (dat + 2) = headerLen"
    "?buf ! (dat + 17) = fingerDataLen" "dat + 17 < length ?buf"
    using assms(2,4,5) by (simp_all add: rd8_def field_offsets split: if_splits)
  have fld: "le16 (?buf ! (?f0 + 20)) (?buf ! (?f0 + 21)) = force_minor"
    "le16 (?buf ! (?f0 + 4)) (?buf ! (?f0 + 5)) = x"
    "le16 (?buf ! (?f0 + 6)) (?buf ! (?f0 + 7)) = y"
    "le16 (?buf ! (?f0 + 14)) (?buf ! (?f0 + 15)) = size_minor"
    using assms(7-10) by (simp_all add: rd16_def field_offsets add.commute add.assoc split: if_splits)
  from newPacket_first_finger [OF assms(1)] hdr assms(3,6)
  obtain buf evs where
    r: "?f0 + 21 < length ?buf" "length buf = length ?buf"
       "\<forall>k < ?f0 + 18. buf ! k = ?buf ! k"
       "buf ! (?f0 + 20) = floored (min_pressure mt) ?buf ?f0 ! (?f0 + 20)"
       "buf ! (?f0 + 21) = floored (min_pressure mt) ?buf ?f0 ! (?f0 + 21)"
       "\<forall>e \<in> set evs. is_mt_event e"
       "mt' = mt\<lparr>InputPacket := buf,
                 trace := trace mt @ evs @
                   the (report_single_touch (mt\<lparr>InputPacket := buf, trace := trace mt @ evs\<rparr>) dat)
                   @ [InputSync]\<rparr>"
    by auto
  have b: "buf ! (dat + 16) = numFingers" "buf ! (dat + 2) = headerLen"
    "buf ! (?f0 + 4) = ?buf ! (?f0 + 4)" "buf ! (?f0 + 5) = ?buf ! (?f0 + 5)"
    "buf ! (?f0 + 6) = ?buf ! (?f0 + 6)" "buf ! (?f0 + 7) = ?buf ! (?f0 + 7)"
    "buf ! (?f0 + 14) = ?buf ! (?f0 + 14)" "buf ! (?f0 + 15) = ?buf ! (?f0 + 15)"
    using r(3) hdr by simp_all
  have m: "le16 (buf ! (?f0 + 20)) (buf ! (?f0 + 21)) = floor_force (min_pressure mt) force_minor"
    using r(1,4,5) by (simp add: floored_minor le16_split fld)
  have pos: "0 < unat numFingers" using assms(3) by (simp add: unat_gt_0)
  have "report_single_touch (mt\<lparr>InputPacket := buf, trace := trace mt @ evs\<rparr>) dat =
      Some (if unat (min_pressure mt) < unat force_minor
              then [ReportAbs ABS_X (sint x),
                    ReportAbs ABS_Y (SensorHeight mt - sint y),
                    ReportKey BTN_TOUCH (if size_minor > 0 then 1 else 0)]
              else [ReportKey BTN_TOUCH 0])"
    using r(1,2) hdr(4) pos b m fld
    by (simp add: report_single_touch_def rd8_def rd16_def field_offsets Let_def
        floor_force_pos add.commute add.assoc)
  with r(6,7) show ?thesis by auto
qed

lemma two_finger_frame_run:
  "map_option trace (newPacket two_finger_frame 1 14) =
     Some [MtSync,
           ReportAbs ABS_MT_TOUCH_MAJOR 100, ReportAbs ABS_MT_TOUCH_MINOR 0,
           ReportAbs ABS_MT_WIDTH_MAJOR 0, ReportAbs ABS_MT_WIDTH_MINOR 0,
           ReportAbs ABS_MT_ORIENTATION 16384, ReportAbs ABS_MT_TRACKING_ID 0,
           ReportAbs ABS_MT_POSITION_X 0, ReportAbs ABS_MT_POSITION_Y 15936,
           MtSync, ReportKey BTN_TOUCH 0, InputSync]"
  by code_simp


theorem single_touch_after_floor_witness:
  "\<exists>evs. trace (the (newPacket two_finger_frame 1 14)) = evs @ [ReportKey BTN_TOUCH 0, InputSync]"
proof -
  have run: "newPacket two_finger_frame 1 14 = Some (the (newPacket two_finger_frame 1 14))"
    using two_finger_frame_run by (cases "newPacket two_finger_frame 1 14") simp_all
  have h: "rd8 (InputPacket two_finger_frame) (1 + hdr_numFingers) = Some 2"
    "rd8 (InputPacket two_finger_frame) (1 + hdr_headerLen) = Some 24"
    "rd8 (InputPacket two_finger_frame) (1 + hdr_fingerDataLen) = Some 28"
    "rd16 (InputPacket two_finger_frame) (1 + unat (24 :: u8) + fd_force_minor) = Some 50"
    "rd16 (InputPacket two_finger_frame) (1 + unat (24 :: u8) + fd_x) = Some 0"
    "rd16 (InputPacket two_finger_frame) (1 + unat (24 :: u8) + fd_y) = Some 0"
    "rd16 (InputPacket two_finger_frame) (1 + unat (24 :: u8) + fd_size_minor) = Some 0"
    by code_simp+
  have c: "(2 :: u8) \<noteq> 0" "(2 :: u8) = 1 \<or> 4 \<le> unat (28 :: u8)" by simp_all
  have m: "min_pressure two_finger_frame = 100" "trace two_finger_frame = []"
    by (simp_all add: two_finger_frame_def example_state_def probe_state_def)
  from single_touch_after_floor [OF run h(1) c(1) h(2) h(3) c(2) h(4) h(5) h(6) h(7)]
  show ?thesis by (auto simp add: m)
qed

text \<open>
  Claim C10 as stated fails when records overlap: with a stride of 0 and two
  fingers the second iteration floors the same record again. The raw minor
  force 150 exceeds the floor 100, the first iteration reports 50, the second
  leaves 0, and the decoder reports \<open>BTN_TOUCH\<close> 0 without a position.
\<close>

theorem overlapping_records_lose_first_finger:
  "map_option trace (newPacket overlapping_frame 1 14) =
     Some [ReportAbs ABS_MT_TOUCH_MAJOR 0, ReportAbs ABS_MT_TOUCH_MINOR 50,
           ReportAbs ABS_MT_WIDTH_MAJOR 0, ReportAbs ABS_MT_WIDTH_MINOR 0,
           ReportAbs ABS_MT_ORIENTATION 16384, ReportAbs ABS_MT_TRACKING_ID 0,
           ReportAbs ABS_MT_POSITION_X 0, ReportAbs ABS_MT_POSITION_Y 15936,
           MtSync, MtSync, ReportKey BTN_TOUCH 0, InputSync] \<and>
   rd8 (InputPacket overlapping_frame) (1 + hdr_numFingers) = Some 2 \<and>
   rd8 (InputPacket overlapping_frame) (1 + hdr_headerLen) = Some 24 \<and>
   rd16 (InputPacket overlapping_frame) (1 + 24 + fd_force_minor) = Some 150 \<and>
   min_pressure overlapping_frame = 100"
  by code_simp

subsection \<open>What a frame read changes\<close>

lemma mt_txrx_trace:
  "mt_txrx dev mt setting out outLen inCap inLen = Some (rx, mt1) \<Longrightarrow>
     \<exists>ev. mt1 = mt\<lparr>trace := trace mt @ [ev]\<rparr>"
  by (auto simp add: mt_txrx_def Let_def split: if_splits)

lemma readFrameLength_loop_trace:
  "readFrameLength_loop dev tx t len mt = Some (r, mt') \<Longrightarrow>
     \<exists>evs. mt' = mt\<lparr>trace := trace mt @ evs\<rparr>"
proof (induction dev tx t len mt arbitrary: r mt' rule: readFrameLength_loop.induct)
  case (1 dev tx t len mt)
  show ?case
  proof (cases "t < 4")
    case False
    with "1.prems" have "mt' = mt"
      by (simp add: readFrameLength_loop.simps [of dev tx t len mt])
    then show ?thesis by (intro exI [of _ "[]"]) simp
  next
    case True
    with "1.prems" obtain rx mt1 where
      tx: "mt_txrx dev mt NORMAL_SPEED tx 8 8 8 = Some (rx, mt1)" and
      k: "(case frame_length_response (MaxPacketSize mt1) rx of
            Retry \<Rightarrow> readFrameLength_loop dev tx (t + 1) len (msleep 1 mt1)
          | Done tLen \<Rightarrow> Some ((True, tLen), mt1)) = Some (r, mt')"
      by (auto simp add: readFrameLength_loop.simps [of dev tx t len mt]
          split: Option.bind_splits)
    from mt_txrx_trace [OF tx] obtain ev where mt1: "mt1 = mt\<lparr>trace := trace mt @ [ev]\<rparr>" ..
    show ?thesis
    proof (cases "frame_length_response (MaxPacketSize mt1) rx")
      case Retry
      with k have "readFrameLength_loop dev tx (t + 1) len (msleep 1 mt1) = Some (r, mt')"
        by simp
      from "1.IH" [OF True tx refl Retry this]
      obtain evs where "mt' = (msleep 1 mt1)\<lparr>trace := trace (msleep 1 mt1) @ evs\<rparr>" ..
      then show ?thesis using mt1
        by (intro exI [of _ "[ev, Msleep 1] @ evs"]) (simp add: msleep_def)
    next
      case (Done tLen)
      with k mt1 show ?thesis by (intro exI [of _ "[ev]"]) auto
    qed
  qed
qed

text \<open>The decoder changes the input packet and the trace, nothing else.\<close>

lemma newPacket_frame:
  assumes "newPacket mt dat len = Some mt'"
  shows "\<exists>buf evs. mt' = mt\<lparr>InputPacket := buf, trace := trace mt @ evs\<rparr> \<and>
           length buf = length (InputPacket mt)"
proof -
  from assms obtain mt1 lev where
    lp: "fingers_loop mt dat (dat + unat (InputPacket mt ! (dat + 2))) 0 = Some mt1" and
    mt': "mt' = mt1\<lparr>trace := trace mt1 @ lev @ [InputSync]\<rparr>"
    by (auto simp add: newPacket_def rd8_def field_offsets
        split: if_splits Option.bind_splits)
  from fingers_loop_frame [OF lp] obtain buf evs where
    "mt1 = mt\<lparr>InputPacket := buf, trace := trace mt @ evs\<rparr>"
    "length buf = length (InputPacket mt)"
    by auto
  then show ?thesis using mt'
    by (intro exI [of _ buf] exI [of _ "evs @ lev @ [InputSync]"]) simp
qed

lemma readResultData_loop_frame:
  "readResultData_loop dev len t mt = Some (r, mt') \<Longrightarrow>
     \<exists>buf evs. mt' = mt\<lparr>InputPacket := buf, trace := trace mt @ evs\<rparr>"
proof (induction dev len t mt arbitrary: r mt' rule: readResultData_loop.induct)
  case (1 dev len t mt)
  show ?case
  proof (cases "t < 4")
    case False
    with "1.prems" have "mt' = mt"
      by (simp add: readResultData_loop.simps [of dev len t mt])
    then show ?thesis by (intro exI [of _ "InputPacket mt"] exI [of _ "[]"]) simp
  next
    case True
    let ?mt2 = "\<lambda>rx mt1. mt1\<lparr>InputPacket := store_rx rx (InputPacket mt1)\<rparr>"
    from True "1.prems" obtain rx mt1 where
      tx: "mt_txrx dev mt NORMAL_SPEED (GetResultPacket mt) len (length (InputPacket mt)) len
             = Some (rx, mt1)" and
      k: "(case result_data_response (InputPacket (?mt2 rx mt1)) len of
            Retry \<Rightarrow> readResultData_loop dev len (t + 1) (msleep 1 (?mt2 rx mt1))
          | Done u \<Rightarrow> newPacket (?mt2 rx mt1) 1 (len - 3) \<bind> (\<lambda>mt3. Some (True, mt3)))
          = Some (r, mt')"
      by (auto simp add: readResultData_loop.simps [of dev len t mt] Let_def
          split: Option.bind_splits)
    from mt_txrx_trace [OF tx] obtain ev where mt1: "mt1 = mt\<lparr>trace := trace mt @ [ev]\<rparr>" ..
    show ?thesis
    proof (cases "result_data_response (InputPacket (?mt2 rx mt1)) len")
      case Retry
      with k have "readResultData_loop dev len (t + 1) (msleep 1 (?mt2 rx mt1)) = Some (r, mt')"
        by simp
      from "1.IH" [OF True tx refl refl Retry this]
      obtain buf evs where
        "mt' = (msleep 1 (?mt2 rx mt1))\<lparr>InputPacket := buf,
            trace := trace (msleep 1 (?mt2 rx mt1)) @ evs\<rparr>"
        by auto
      then show ?thesis using mt1
        by (intro exI [of _ buf] exI [of _ "[ev, Msleep 1] @ evs"]) (simp add: msleep_def)
    next
      case (Done u)
      with k obtain mt3 where np: "newPacket (?mt2 rx mt1) 1 (len - 3) = Some mt3"
        and m: "mt' = mt3"
        by (auto split: Option.bind_splits)
      from newPacket_frame [OF np] obtain buf evs where
        "mt3 = (?mt2 rx mt1)\<lparr>InputPacket := buf, trace := trace (?mt2 rx mt1) @ evs\<rparr>"
        by auto
      then show ?thesis using mt1 m
        by (intro exI [of _ buf] exI [of _ "[ev] @ evs"]) simp
    qed
  qed
qed

lemma readFrame_loop_token:
  "readFrame_loop dev t mt = Some (r, mt') \<Longrightarrow>
     (r = 1 \<or> r = 0 \<or> r = - 1) \<and>
     CurNOP mt' = (if r = 1 then flip_nop (CurNOP mt) else CurNOP mt)"
proof (induction dev t mt arbitrary: r mt' rule: readFrame_loop.induct)
  case (1 dev t mt)
  show ?case
  proof (cases "t < 4")
    case False
    with "1.prems" show ?thesis
      by (simp add: readFrame_loop.simps [of dev t mt])
  next
    case True
    from True "1.prems" obtain ok len mt1 where
      fl: "readFrameLength dev mt 0 = Some ((ok, len), mt1)" and
      k: "(if \<not> ok then readFrame_loop dev (t + 1) (msleep 1 mt1)
           else if len \<noteq> 0
             then readResultData dev mt1 (len + 1) \<bind>
               (\<lambda>(ok', mt2).
                  if \<not> ok' then readFrame_loop dev (t + 1) (msleep 1 mt2)
                  else Some (1, mt2\<lparr>CurNOP := (if CurNOP mt2 = 0x64 then 0x65 else 0x64)\<rparr>))
             else Some (0, mt1)) = Some (r, mt')"
      by (auto simp add: readFrame_loop.simps [of dev t mt] split: Option.bind_splits)
    from readFrameLength_loop_trace [OF fl [unfolded readFrameLength_def]]
    obtain evs where mt1: "mt1 = mt\<lparr>trace := trace mt @ evs\<rparr>" ..
    show ?thesis
    proof (cases ok)
      case False
      with k have "readFrame_loop dev (t + 1) (msleep 1 mt1) = Some (r, mt')" by simp
      from "1.IH"(1) [OF True fl refl refl _ this] False
      show ?thesis using mt1 by (simp add: msleep_def)
    next
      case ok: True
      show ?thesis
      proof (cases "len = 0")
        case True
        with k ok mt1 show ?thesis by auto
      next
        case nz: False
        with k ok obtain ok' mt2 where
          rd: "readResultData dev mt1 (len + 1) = Some (ok', mt2)" and
          k2: "(if \<not> ok' then readFrame_loop dev (t + 1) (msleep 1 mt2)
                else Some (1, mt2\<lparr>CurNOP := (if CurNOP mt2 = 0x64 then 0x65 else 0x64)\<rparr>))
               = Some (r, mt')"
          by (auto split: Option.bind_splits)
        from rd obtain buf evs2 where
          mt2: "mt2 = mt1\<lparr>InputPacket := buf, trace := trace mt1 @ evs2\<rparr>"
          using readResultData_loop_frame
          by (fastforce simp add: readResultData_def split: if_splits)
        show ?thesis
        proof (cases ok')
          case False
          with k2 have "readFrame_loop dev (t + 1) (msleep 1 mt2) = Some (r, mt')" by simp
          from "1.IH"(2) [OF True fl refl refl _ nz rd refl _ this] ok False
          show ?thesis using mt1 mt2 by (simp add: msleep_def)
        next
          case True
          with k2 mt1 mt2 show ?thesis by (auto simp add: flip_nop_def)
        qed
      qed
    qed
  qed
qed

subsection \<open>The decoder, finger by finger\<close>

lemma finger_events_indep:
  "finger_events (mt\<lparr>InputPacket := B, trace := tr\<rparr>) f = finger_events (mt\<lparr>InputPacket := B\<rparr>) f"
  by (simp add: finger_events_def Let_def)

lemma floored_above: "finger + 22 \<le> k \<Longrightarrow> floored F buf finger ! k = buf ! k"
  by (simp add: floored_def Let_def)

text \<open>
  The loop over the fingers, finger by finger: the reports of the \<open>k\<close>-th
  remaining record are those of a buffer that agrees with the buffer at the
  start on every byte that no earlier record's force fields reach.
\<close>

lemma fingers_loop_segments:
  assumes "fingers_loop mt dat f i = Some mt'" and "dat \<le> f"
  shows "\<exists>segs. length segs = unat (InputPacket mt ! (dat + 16)) - i \<and>
           trace mt' = trace mt @ concat (map (\<lambda>seg. seg @ [MtSync]) segs) \<and>
           (\<forall>k < length segs. \<exists>B. length B = length (InputPacket mt) \<and>
               (\<forall>b. k = 0 \<or> f + k * unat (InputPacket mt ! (dat + 17)) + 22
                        \<le> b + unat (InputPacket mt ! (dat + 17))
                    \<longrightarrow> B ! b = InputPacket mt ! b) \<and>
               f + k * unat (InputPacket mt ! (dat + 17)) + 21 < length (InputPacket mt) \<and>
               segs ! k = finger_events (mt\<lparr>InputPacket := B\<rparr>)
                            (f + k * unat (InputPacket mt ! (dat + 17))))"
  using assms
proof (induction mt dat f i arbitrary: mt' rule: fingers_loop.induct)
  case (1 mt dat f i)
  let ?buf = "InputPacket mt"
  let ?s = "unat (?buf ! (dat + 17))"
  let ?n = "unat (?buf ! (dat + 16))"
  show ?case
  proof (cases "i < ?n")
    case False
    with "1.prems" have "mt' = mt"
      by (simp add: fingers_loop.simps [of mt dat f i] rd8_def field_offsets
          split: if_splits Option.bind_splits)
    with False show ?thesis by (intro exI [of _ "[]"]) simp
  next
    case True
    from "1.prems" obtain n where n: "rd8 ?buf (dat + hdr_numFingers) = Some n"
      by (auto simp add: fingers_loop.simps [of mt dat f i] split: Option.bind_splits)
    then have n': "n = ?buf ! (dat + 16)"
      by (simp add: rd8_def field_offsets split: if_splits)
    from "1.prems" n True n' obtain mt1 f1 where
      st: "finger_step mt dat f = Some (mt1, f1)" and
      rest: "fingers_loop mt1 dat f1 (i + 1) = Some mt'"
      by (auto simp add: fingers_loop.simps [of mt dat f i] split: Option.bind_splits)
    have inb: "f + 21 < length ?buf" using st by (rule finger_step_bounds)
    from st have mt1: "mt1 = mt\<lparr>InputPacket := floored (min_pressure mt) ?buf f,
              trace := trace mt @ finger_events mt f @ [MtSync]\<rparr>"
      and f1: "f1 = f + ?s"
      using finger_step_Some [OF "1.prems"(2) inb] by simp_all
    have df: "dat \<le> f1" using f1 "1.prems"(2) by simp
    have lt: "i < unat n" using True n' by simp
    have hd: "InputPacket mt1 ! (dat + 16) = ?buf ! (dat + 16)"
      "InputPacket mt1 ! (dat + 17) = ?buf ! (dat + 17)"
      using mt1 "1.prems"(2) by (simp_all add: floored_below)
    have len1: "length (InputPacket mt1) = length ?buf" using mt1 by simp
    from "1.IH" [OF n lt st refl rest df, unfolded hd len1]
    obtain segs where
      s1: "length segs = ?n - (i + 1)" and
      s2: "trace mt' = trace mt1 @ concat (map (\<lambda>seg. seg @ [MtSync]) segs)" and
      s3: "\<forall>k < length segs. \<exists>B. length B = length ?buf \<and>
               (\<forall>b. k = 0 \<or> f1 + k * ?s + 22 \<le> b + ?s \<longrightarrow> B ! b = InputPacket mt1 ! b) \<and>
               f1 + k * ?s + 21 < length ?buf \<and>
               segs ! k = finger_events (mt1\<lparr>InputPacket := B\<rparr>) (f1 + k * ?s)"
      by auto
    let ?segs = "finger_events mt f # segs"
    have a: "length ?segs = ?n - i" using s1 True by simp
    have b: "trace mt' = trace mt @ concat (map (\<lambda>seg. seg @ [MtSync]) ?segs)"
      using s2 mt1 by simp
    have c: "\<exists>B. length B = length ?buf \<and>
               (\<forall>b. k = 0 \<or> f + k * ?s + 22 \<le> b + ?s \<longrightarrow> B ! b = ?buf ! b) \<and>
               f + k * ?s + 21 < length ?buf \<and>
               ?segs ! k = finger_events (mt\<lparr>InputPacket := B\<rparr>) (f + k * ?s)"
      if k: "k < length ?segs" for k
    proof (cases k)
      case 0
      then show ?thesis using inb by (intro exI [of _ ?buf]) simp
    next
      case (Suc j)
      with k have j: "j < length segs" by simp
      from s3 [rule_format, OF j] obtain B where
        B: "length B = length ?buf"
          "\<forall>b. j = 0 \<or> f1 + j * ?s + 22 \<le> b + ?s \<longrightarrow> B ! b = InputPacket mt1 ! b"
          "f1 + j * ?s + 21 < length ?buf"
          "segs ! j = finger_events (mt1\<lparr>InputPacket := B\<rparr>) (f1 + j * ?s)"
        by auto
      have pos: "f1 + j * ?s = f + k * ?s" using f1 Suc by simp
      have agree: "B ! b = ?buf ! b" if h: "f + k * ?s + 22 \<le> b + ?s" for b
      proof -
        have "f + 22 \<le> b" using h Suc by simp
        then have "InputPacket mt1 ! b = ?buf ! b" using mt1 by (simp add: floored_above)
        moreover have "B ! b = InputPacket mt1 ! b"
          using B(2) h pos by auto
        ultimately show ?thesis by simp
      qed
      have ev: "finger_events (mt1\<lparr>InputPacket := B\<rparr>) (f + k * ?s)
          = finger_events (mt\<lparr>InputPacket := B\<rparr>) (f + k * ?s)"
        using mt1 by (simp add: finger_events_def Let_def)
      show ?thesis
        using B(1,3,4) agree ev Suc unfolding pos
        by (intro exI [of _ B]) auto
    qed
    show ?thesis
      using a b c by (intro exI [of _ ?segs]) blast
  qed
qed

lemma report_single_touch_not_mt:
  "report_single_touch mt dat = Some lev \<Longrightarrow> \<forall>e \<in> set lev. \<not> is_mt_event e"
  by (auto simp add: report_single_touch_def Let_def split: if_splits Option.bind_splits)

lemma newPacket_segments:
  assumes "newPacket mt dat len = Some mt'"
  shows "\<exists>segs lev. length segs = unat (InputPacket mt ! (dat + 16)) \<and>
           trace mt' = trace mt @ concat (map (\<lambda>seg. seg @ [MtSync]) segs) @ lev @ [InputSync] \<and>
           (\<forall>e \<in> set lev. \<not> is_mt_event e) \<and>
           (\<forall>k < length segs. \<exists>B. length B = length (InputPacket mt) \<and>
               (\<forall>b. k = 0 \<or> dat + unat (InputPacket mt ! (dat + 2))
                          + k * unat (InputPacket mt ! (dat + 17)) + 22
                        \<le> b + unat (InputPacket mt ! (dat + 17))
                    \<longrightarrow> B ! b = InputPacket mt ! b) \<and>
               dat + unat (InputPacket mt ! (dat + 2))
                 + k * unat (InputPacket mt ! (dat + 17)) + 21 < length (InputPacket mt) \<and>
               segs ! k = finger_events (mt\<lparr>InputPacket := B\<rparr>)
                            (dat + unat (InputPacket mt ! (dat + 2))
                               + k * unat (InputPacket mt ! (dat + 17))))"
proof -
  from assms obtain mt1 lev where
    lp: "fingers_loop mt dat (dat + unat (InputPacket mt ! (dat + 2))) 0 = Some mt1" and
    rs: "report_single_touch mt1 dat = Some lev" and
    mt': "mt' = mt1\<lparr>trace := trace mt1 @ lev @ [InputSync]\<rparr>"
    by (auto simp add: newPacket_def rd8_def field_offsets
        split: if_splits Option.bind_splits)
  from fingers_loop_segments [OF lp] obtain segs where
    s: "length segs = unat (InputPacket mt ! (dat + 16)) - 0"
       "trace mt1 = trace mt @ concat (map (\<lambda>seg. seg @ [MtSync]) segs)"
       "\<forall>k < length segs. \<exists>B. length B = length (InputPacket mt) \<and>
               (\<forall>b. k = 0 \<or> dat + unat (InputPacket mt ! (dat + 2))
                          + k * unat (InputPacket mt ! (dat + 17)) + 22
                        \<le> b + unat (InputPacket mt ! (dat + 17))
                    \<longrightarrow> B ! b = InputPacket mt ! b) \<and>
               dat + unat (InputPacket mt ! (dat + 2))
                 + k * unat (InputPacket mt ! (dat + 17)) + 21 < length (InputPacket mt) \<and>
               segs ! k = finger_events (mt\<lparr>InputPacket := B\<rparr>)
                            (dat + unat (InputPacket mt ! (dat + 2))
                               + k * unat (InputPacket mt ! (dat + 17)))"
    by auto
  show ?thesis
    using s mt' report_single_touch_not_mt [OF rs]
    by (intro exI [of _ segs] exI [of _ lev]) simp
qed

lemma floor_frame_run:
  "map_option trace (newPacket floor_frame 1 14) =
     Some [MtSync, ReportAbs ABS_MT_TOUCH_MAJOR 1, ReportAbs ABS_MT_TOUCH_MINOR 0,
           ReportAbs ABS_MT_WIDTH_MAJOR 0, ReportAbs ABS_MT_WIDTH_MINOR 0,
           ReportAbs ABS_MT_ORIENTATION 16384, ReportAbs ABS_MT_TRACKING_ID 0,
           ReportAbs ABS_MT_POSITION_X 0, ReportAbs ABS_MT_POSITION_Y 15936, MtSync,
           ReportKey BTN_TOUCH 0, InputSync]"
  by code_simp



text \<open>
  Claim C1, as amended. Whenever \<open>newPacket\<close> decodes a frame (all its accesses
  inside the packet buffer) that holds at most one finger or whose records
  are at least 4 bytes apart, what it reports is: for each of the \<open>numFingers\<close>
  records in turn the reports of that finger followed by the end-of-contact
  marker \<open>MtSync\<close>, then the legacy single-touch reports and \<open>InputSync\<close>. The
  record of finger \<open>i\<close> is the one at \<open>headerLen + i * fingerDataLen\<close> in the
  frame as received, that is, the cursor moves on by the stride after every
  finger, reported or not. A finger whose two forces both arrive equal to the
  pressure floor has no report before its marker; a finger whose major force
  arrives as the floor plus one has a major force of 1 as its first report,
  followed by its seven other reports.
\<close>

theorem pressure_floor_per_finger:
  assumes "newPacket mt dat len = Some mt'"
    and "rd8 (InputPacket mt) (dat + hdr_headerLen) = Some headerLen"
    and "rd8 (InputPacket mt) (dat + hdr_numFingers) = Some numFingers"
    and "rd8 (InputPacket mt) (dat + hdr_fingerDataLen) = Some fingerDataLen"
    and "unat numFingers \<le> 1 \<or> 4 \<le> unat fingerDataLen"
  shows "\<exists>segs lev. length segs = unat numFingers \<and>
           trace mt' = trace mt @ concat (map (\<lambda>seg. seg @ [MtSync]) segs) @ lev @ [InputSync] \<and>
           (\<forall>e \<in> set lev. \<not> is_mt_event e) \<and>
           (\<forall>i < unat numFingers.
              MtSync \<notin> set (segs ! i) \<and>
              (rd16 (InputPacket mt)
                   (dat + unat headerLen + i * unat fingerDataLen + fd_force_major)
                 = Some (ucast (min_pressure mt)) \<and>
               rd16 (InputPacket mt)
                   (dat + unat headerLen + i * unat fingerDataLen + fd_force_minor)
                 = Some (ucast (min_pressure mt))
               \<longrightarrow> segs ! i = []) \<and>
              (rd16 (InputPacket mt)
                   (dat + unat headerLen + i * unat fingerDataLen + fd_force_major)
                 = Some (ucast (min_pressure mt) + 1)
               \<longrightarrow> (\<exists>rest. segs ! i = ReportAbs ABS_MT_TOUCH_MAJOR 1 # rest \<and> length rest = 7)))"
proof -
  let ?buf = "InputPacket mt"
  let ?F = "min_pressure mt"
  have hdr: "?buf ! (dat + 2) = headerLen" "?buf ! (dat + 16) = numFingers"
    "?buf ! (dat + 17) = fingerDataLen"
    using assms(2-4) by (simp_all add: rd8_def field_offsets split: if_splits)
  from newPacket_segments [OF assms(1), unfolded hdr] obtain segs lev where
    r: "length segs = unat numFingers"
       "trace mt' = trace mt @ concat (map (\<lambda>seg. seg @ [MtSync]) segs) @ lev @ [InputSync]"
       "\<forall>e \<in> set lev. \<not> is_mt_event e"
       "\<forall>k < length segs. \<exists>B. length B = length ?buf \<and>
           (\<forall>b. k = 0 \<or> dat + unat headerLen + k * unat fingerDataLen + 22
                      \<le> b + unat fingerDataLen \<longrightarrow> B ! b = ?buf ! b) \<and>
           dat + unat headerLen + k * unat fingerDataLen + 21 < length ?buf \<and>
           segs ! k = finger_events (mt\<lparr>InputPacket := B\<rparr>)
                        (dat + unat headerLen + k * unat fingerDataLen)"
    by auto
  have per: "MtSync \<notin> set (segs ! i) \<and>
      (rd16 ?buf (dat + unat headerLen + i * unat fingerDataLen + fd_force_major) = Some (ucast ?F) \<and>
       rd16 ?buf (dat + unat headerLen + i * unat fingerDataLen + fd_force_minor) = Some (ucast ?F)
       \<longrightarrow> segs ! i = []) \<and>
      (rd16 ?buf (dat + unat headerLen + i * unat fingerDataLen + fd_force_major)
         = Some (ucast ?F + 1)
       \<longrightarrow> (\<exists>rest. segs ! i = ReportAbs ABS_MT_TOUCH_MAJOR 1 # rest \<and> length rest = 7))"
    if i: "i < unat numFingers" for i
  proof -
    let ?f = "dat + unat headerLen + i * unat fingerDataLen"
    from r(4) [rule_format, of i] i r(1) obtain B where
      B: "length B = length ?buf"
         "\<forall>b. i = 0 \<or> ?f + 22 \<le> b + unat fingerDataLen \<longrightarrow> B ! b = ?buf ! b"
         "?f + 21 < length ?buf"
         "segs ! i = finger_events (mt\<lparr>InputPacket := B\<rparr>) ?f"
      by auto
    have far: "i = 0 \<or> 4 \<le> unat fingerDataLen" using assms(5) i by auto
    have force: "B ! (?f + 18) = ?buf ! (?f + 18)" "B ! (?f + 19) = ?buf ! (?f + 19)"
      "B ! (?f + 20) = ?buf ! (?f + 20)" "B ! (?f + 21) = ?buf ! (?f + 21)"
      using B(2) far by auto
    have ev: "segs ! i =
       (let a = floor_force ?F (le16 (?buf ! (?f + 18)) (?buf ! (?f + 19)));
            b = floor_force ?F (le16 (?buf ! (?f + 20)) (?buf ! (?f + 21)))
        in if a > 0 \<or> b > 0
           then [ReportAbs ABS_MT_TOUCH_MAJOR (uint a),
                 ReportAbs ABS_MT_TOUCH_MINOR (uint b),
                 ReportAbs ABS_MT_WIDTH_MAJOR (uint (le16 (B ! (?f + 12)) (B ! (?f + 13)))),
                 ReportAbs ABS_MT_WIDTH_MINOR (uint (le16 (B ! (?f + 14)) (B ! (?f + 15)))),
                 ReportAbs ABS_MT_ORIENTATION (16384 - uint (le16 (B ! (?f + 16)) (B ! (?f + 17)))),
                 ReportAbs ABS_MT_TRACKING_ID (uint (B ! ?f)),
                 ReportAbs ABS_MT_POSITION_X (sint (le16 (B ! (?f + 4)) (B ! (?f + 5)))),
                 ReportAbs ABS_MT_POSITION_Y
                   (SensorHeight mt - sint (le16 (B ! (?f + 6)) (B ! (?f + 7))))]
           else [])"
      unfolding B(4) finger_events_def by (simp add: force Let_def)
    have rd: "rd16 ?buf (?f + fd_force_major) = Some (le16 (?buf ! (?f + 18)) (?buf ! (?f + 19)))"
      "rd16 ?buf (?f + fd_force_minor) = Some (le16 (?buf ! (?f + 20)) (?buf ! (?f + 21)))"
      using B(3) by (simp_all add: rd16_def field_offsets add.commute add.assoc)
    show ?thesis
      unfolding rd ev
      by (auto simp add: Let_def floor_force_eq floor_force_succ)
  qed
  show ?thesis
    using r(1,2,3) per by (intro exI [of _ segs] exI [of _ lev]) simp
qed

theorem pressure_floor_per_finger_witness:
  "\<exists>segs lev. length segs = 2 \<and>
     trace (the (newPacket floor_frame 1 14)) =
       concat (map (\<lambda>seg. seg @ [MtSync]) segs) @ lev @ [InputSync] \<and>
     segs ! 0 = [] \<and>
     (\<exists>rest. segs ! 1 = ReportAbs ABS_MT_TOUCH_MAJOR 1 # rest \<and> length rest = 7)"
proof -
  have run: "newPacket floor_frame 1 14 = Some (the (newPacket floor_frame 1 14))"
    using floor_frame_run by (cases "newPacket floor_frame 1 14") simp_all
  have h: "rd8 (InputPacket floor_frame) (1 + hdr_headerLen) = Some 24"
    "rd8 (InputPacket floor_frame) (1 + hdr_numFingers) = Some 2"
    "rd8 (InputPacket floor_frame) (1 + hdr_fingerDataLen) = Some 28"
    by code_simp+
  have c: "unat (2 :: u8) \<le> 1 \<or> 4 \<le> unat (28 :: u8)" by simp
  have f: "rd16 (InputPacket floor_frame) (1 + unat (24 :: u8) + 0 * unat (28 :: u8) + fd_force_major)
             = Some (ucast (min_pressure floor_frame))"
    "rd16 (InputPacket floor_frame) (1 + unat (24 :: u8) + 0 * unat (28 :: u8) + fd_force_minor)
             = Some (ucast (min_pressure floor_frame))"
    "rd16 (InputPacket floor_frame) (1 + unat (24 :: u8) + 1 * unat (28 :: u8) + fd_force_major)
             = Some (ucast (min_pressure floor_frame) + 1)"
    by code_simp+
  have t: "trace floor_frame = []"
    by (simp add: floor_frame_def example_state_def probe_state_def)
  from pressure_floor_per_finger [OF run h(1) h(2) h(3) c]
  obtain segs lev where
    r: "length segs = unat (2 :: u8)"
       "trace (the (newPacket floor_frame 1 14)) =
          trace floor_frame @ concat (map (\<lambda>seg. seg @ [MtSync]) segs) @ lev @ [InputSync]"
       "\<forall>i < unat (2 :: u8).
          MtSync \<notin> set (segs ! i) \<and>
          (rd16 (InputPacket floor_frame)
               (1 + unat (24 :: u8) + i * unat (28 :: u8) + fd_force_major)
             = Some (ucast (min_pressure floor_frame)) \<and>
           rd16 (InputPacket floor_frame)
               (1 + unat (24 :: u8) + i * unat (28 :: u8) + fd_force_minor)
             = Some (ucast (min_pressure floor_frame))
           \<longrightarrow> segs ! i = []) \<and>
          (rd16 (InputPacket floor_frame)
               (1 + unat (24 :: u8) + i * unat (28 :: u8) + fd_force_major)
             = Some (ucast (min_pressure floor_frame) + 1)
           \<longrightarrow> (\<exists>rest. segs ! i = ReportAbs ABS_MT_TOUCH_MAJOR 1 # rest \<and> length rest = 7))"
    by blast
  have two: "(0 :: nat) < unat (2 :: u8)" "(1 :: nat) < unat (2 :: u8)" by simp_all
  from r(3) [rule_format, OF two(1)] f(1,2) have s0: "segs ! 0 = []" by blast
  from r(3) [rule_format, OF two(2)] f(3)
  have s1: "\<exists>rest. segs ! 1 = ReportAbs ABS_MT_TOUCH_MAJOR 1 # rest \<and> length rest = 7" by blast
  show ?thesis
    using r(1,2) s0 s1 t by (intro exI [of _ segs] exI [of _ lev]) simp
qed

text \<open>
  Without the condition on the stride the statement of claim C1 fails, because
  the floor is subtracted in place and a later record may share bytes with an
  earlier one. In \<open>stride2_frame\<close> the records are 2 bytes apart and the floor is
  100: the second finger arrives with a major force of 101, the floor plus
  one, at the bytes that are the minor force of the first finger. The first
  finger is reported with a minor force of 1 and those bytes then hold 1, so
  the second finger is found with a force below the floor and nothing is
  reported between the two markers.
\<close>

theorem stride2_second_finger_lost:
  "map_option trace (newPacket stride2_frame 1 14) =
     Some [ReportAbs ABS_MT_TOUCH_MAJOR 0, ReportAbs ABS_MT_TOUCH_MINOR 1,
           ReportAbs ABS_MT_WIDTH_MAJOR 0, ReportAbs ABS_MT_WIDTH_MINOR 0,
           ReportAbs ABS_MT_ORIENTATION 16384, ReportAbs ABS_MT_TRACKING_ID 0,
           ReportAbs ABS_MT_POSITION_X 0, ReportAbs ABS_MT_POSITION_Y 15936, MtSync,
           MtSync, ReportKey BTN_TOUCH 0, InputSync] \<and>
   rd8 (InputPacket stride2_frame) (1 + hdr_headerLen) = Some 24 \<and>
   rd8 (InputPacket stride2_frame) (1 + hdr_numFingers) = Some 2 \<and>
   rd8 (InputPacket stride2_frame) (1 + hdr_fingerDataLen) = Some 2 \<and>
   rd16 (InputPacket stride2_frame) (1 + 24 + 1 * 2 + fd_force_major) = Some 101 \<and>
   min_pressure stride2_frame = 100"
  by code_simp




subsection \<open>One frame read from end to end\<close>

lemma readFrameLength_first:
  assumes "frame_length_response (MaxPacketSize mt)
             (map (dev (trace mt @ [frame_length_request mt])) [0..<8]) = Done L"
  shows "readFrameLength dev mt l0 =
           Some ((True, L), mt\<lparr>trace := trace mt @ [frame_length_request mt]\<rparr>)"
  using assms
  by (simp add: readFrameLength_def readFrameLength_loop.simps [of _ _ 0] mt_txrx_def
      frame_length_request_def Let_def)

lemma readResultData_first:
  assumes "2 \<le> len" and "nat len \<le> length (GetResultPacket mt)"
    and "nat len \<le> length (InputPacket mt)"
    and "result_data_response
           (store_rx (map (dev (trace mt @ [frame_data_request mt len])) [0..<nat len])
              (InputPacket mt)) len = Done ()"
  shows "readResultData dev mt len =
           newPacket (mt\<lparr>trace := trace mt @ [frame_data_request mt len],
                         InputPacket :=
                           store_rx (map (dev (trace mt @ [frame_data_request mt len])) [0..<nat len])
                             (InputPacket mt)\<rparr>) 1 (len - 3)
             \<bind> (\<lambda>mt3. Some (True, mt3))"
  using assms
  by (simp add: readResultData_def readResultData_loop.simps [of _ _ 0] mt_txrx_def
      frame_data_request_def Let_def)

text \<open>The decoder on a frame with exactly one finger.\<close>

lemma newPacket_one_finger:
  fixes mt dat
  defines "buf \<equiv> InputPacket mt" and "f0 \<equiv> dat + unat (InputPacket mt ! (dat + 2))"
  assumes one: "buf ! (dat + 16) = 1" and inb: "f0 + 21 < length buf"
  shows "newPacket mt dat len =
     Some (mt\<lparr>InputPacket := floored (min_pressure mt) buf f0,
              trace := trace mt @ finger_events mt f0 @ [MtSync] @
                (if unat (min_pressure mt) < unat (le16 (buf ! (f0 + 20)) (buf ! (f0 + 21)))
                 then [ReportAbs ABS_X (sint (le16 (buf ! (f0 + 4)) (buf ! (f0 + 5)))),
                       ReportAbs ABS_Y (SensorHeight mt - sint (le16 (buf ! (f0 + 6)) (buf ! (f0 + 7)))),
                       ReportKey BTN_TOUCH
                         (if le16 (buf ! (f0 + 14)) (buf ! (f0 + 15)) > 0 then 1 else 0)]
                 else [ReportKey BTN_TOUCH 0])
                @ [InputSync]\<rparr>)"
proof -
  let ?F = "min_pressure mt"
  let ?mtA = "mt\<lparr>InputPacket := floored ?F buf f0,
                   trace := trace mt @ finger_events mt f0 @ [MtSync]\<rparr>"
  have d0: "dat \<le> f0" by (simp add: f0_def)
  have h: "dat + 17 < length buf" using inb d0 by simp
  have lp1: "fingers_loop mt dat f0 0 = fingers_loop ?mtA dat (f0 + unat (buf ! (dat + 17))) (0 + 1)"
    using d0 inb one unfolding buf_def by (intro fingers_loop_step) simp_all
  have "InputPacket ?mtA ! (dat + 16) = 1" using one d0 by (simp add: floored_below)
  then have lp2: "fingers_loop ?mtA dat (f0 + unat (buf ! (dat + 17))) (0 + 1) = Some ?mtA"
    using h by (intro fingers_loop_stop) simp_all
  have fl: "floored ?F buf f0 ! (dat + 16) = 1" "floored ?F buf f0 ! (dat + 2) = buf ! (dat + 2)"
    "floored ?F buf f0 ! (f0 + 4) = buf ! (f0 + 4)" "floored ?F buf f0 ! (f0 + 5) = buf ! (f0 + 5)"
    "floored ?F buf f0 ! (f0 + 6) = buf ! (f0 + 6)" "floored ?F buf f0 ! (f0 + 7) = buf ! (f0 + 7)"
    "floored ?F buf f0 ! (f0 + 14) = buf ! (f0 + 14)" "floored ?F buf f0 ! (f0 + 15) = buf ! (f0 + 15)"
    using one d0 by (simp_all add: floored_below)
  have m: "le16 (floored ?F buf f0 ! (f0 + 20)) (floored ?F buf f0 ! (f0 + 21))
      = floor_force ?F (le16 (buf ! (f0 + 20)) (buf ! (f0 + 21)))"
    using inb by (simp add: floored_minor le16_split)
  have f0': "dat + unat (buf ! (dat + 2)) = f0" by (simp add: f0_def buf_def)
  have rs: "report_single_touch ?mtA dat =
      Some (if unat ?F < unat (le16 (buf ! (f0 + 20)) (buf ! (f0 + 21)))
                 then [ReportAbs ABS_X (sint (le16 (buf ! (f0 + 4)) (buf ! (f0 + 5)))),
                       ReportAbs ABS_Y (SensorHeight mt - sint (le16 (buf ! (f0 + 6)) (buf ! (f0 + 7)))),
                       ReportKey BTN_TOUCH
                         (if le16 (buf ! (f0 + 14)) (buf ! (f0 + 15)) > 0 then 1 else 0)]
                 else [ReportKey BTN_TOUCH 0])"
    using inb h fl m f0'
    by (simp add: report_single_touch_def rd8_def rd16_def field_offsets Let_def
        floor_force_pos add.commute add.assoc)
  have hd: "rd8 (InputPacket mt) (dat + hdr_type) = Some (buf ! dat)"
    "rd8 (InputPacket mt) (dat + hdr_headerLen) = Some (buf ! (dat + 2))"
    using h by (simp_all add: rd8_def field_offsets buf_def)
  show ?thesis
    unfolding newPacket_def hd
    using lp1 lp2 rs f0' by (simp add: buf_def)
qed

lemma length_store_rx: "length rx \<le> length buf \<Longrightarrow> length (store_rx rx buf) = length buf"
  by (simp add: store_rx_def)

lemma read_cycles_token:
  "read_cycles dev n mt = Some (rs, mt') \<Longrightarrow>
     length rs = n \<and>
     CurNOP mt' = (if even (count_list rs 1) then CurNOP mt
                   else flip_nop (CurNOP mt)) \<or>
     \<not> (CurNOP mt = 0x64 \<or> CurNOP mt = 0x65)"
proof (induction n arbitrary: mt rs)
  case 0
  then show ?case by simp
next
  case (Suc n)
  from Suc.prems obtain r mt1 rs' where
    rf: "readFrame dev mt = Some (r, mt1)" and
    rc: "read_cycles dev n mt1 = Some (rs', mt')" and
    rs: "rs = r # rs'"
    by (auto split: Option.bind_splits)
  from readFrame_loop_token [OF rf [unfolded readFrame_def]]
  have t: "CurNOP mt1 = (if r = 1 then flip_nop (CurNOP mt) else CurNOP mt)" by simp
  from Suc.IH [OF rc] t rs show ?case
    by (auto simp add: flip_nop_def split: if_splits)
qed

lemma count_list_all: "\<forall>r \<in> set rs. r = x \<Longrightarrow> count_list rs x = length rs"
  by (induction rs) auto

lemma one_frame_cycles:
  "map_option fst (read_cycles (scripted [length16_response, frame16_response]) 2
      stale_sized_finger_state) = Some [1, - 1]"
  by code_simp

lemma two_frame_cycles:
  "map_option fst (read_cycles
      (scripted [length16_response, frame16_response, length16_response, frame16_response]) 2
      stale_sized_finger_state) = Some [1, 1]"
  by code_simp

lemma one_frame_read:
  "map_option fst (readFrame (scripted [length16_response, frame16_response])
      stale_sized_finger_state) = Some 1"
  by code_simp

text \<open>
  Claim C8, as amended. The pressure floor is 100 and the packets are the 1024
  bytes of the setup. The device answers the frame-length query with a valid
  response that decodes to a length \<open>L\<close> between 1 and 1023, and the frame-data
  query of \<open>L + 1\<close> bytes with a response whose sync byte and checksum are
  valid. If the packet as the transfer leaves it has a header length of 12, a
  finger count of 1, and at offset 12 of the frame a finger record with a minor
  force of 150 and a minor size that is not zero, then \<open>readFrame\<close> returns 1,
  flips the poll token, and after the two exchanges reports exactly: the eight
  reports of the finger with a minor force of 50, one end-of-contact marker,
  the single-touch position, \<open>BTN_TOUCH\<close> 1 and one sync marker.
\<close>

theorem frame_read_one_finger:
  fixes dev :: device and mt :: zephyr_data and L :: int
  defines "tr1 \<equiv> trace mt @ [frame_length_request mt]"
  defines "tr2 \<equiv> trace mt @ [frame_length_request mt, frame_data_request mt (L + 1)]"
  defines "pkt \<equiv> store_rx (map (dev tr2) [0..<nat (L + 1)]) (InputPacket mt)"
  assumes len: "length (InputPacket mt) = 0x400" "length (GetResultPacket mt) = 0x400"
    and floor: "min_pressure mt = 100"
    and fl: "frame_length_response (MaxPacketSize mt) (map (dev tr1) [0..<8]) = Done L"
    and L: "0 < L" "L < 0x400"
    and fd: "result_data_response pkt (L + 1) = Done ()"
    and hdr: "rd8 pkt (1 + hdr_headerLen) = Some 12" "rd8 pkt (1 + hdr_numFingers) = Some 1"
    and fld: "rd16 pkt (13 + fd_force_major) = Some force_major"
      "rd16 pkt (13 + fd_force_minor) = Some 150"
      "rd16 pkt (13 + fd_size_major) = Some size_major"
      "rd16 pkt (13 + fd_size_minor) = Some size_minor"
      "rd16 pkt (13 + fd_orientation) = Some R"
      "rd8 pkt (13 + fd_id) = Some ident"
      "rd16 pkt (13 + fd_x) = Some x"
      "rd16 pkt (13 + fd_y) = Some y"
    and sz: "size_minor \<noteq> 0"
  shows "\<exists>mt'. readFrame dev mt = Some (1, mt') \<and>
           CurNOP mt' = (if CurNOP mt = 0x64 then 0x65 else 0x64) \<and>
           trace mt' = tr2 @
             [ReportAbs ABS_MT_TOUCH_MAJOR (uint (floor_force 100 force_major)),
              ReportAbs ABS_MT_TOUCH_MINOR 50,
              ReportAbs ABS_MT_WIDTH_MAJOR (uint size_major),
              ReportAbs ABS_MT_WIDTH_MINOR (uint size_minor),
              ReportAbs ABS_MT_ORIENTATION (16384 - uint R),
              ReportAbs ABS_MT_TRACKING_ID (uint ident),
              ReportAbs ABS_MT_POSITION_X (sint x),
              ReportAbs ABS_MT_POSITION_Y (SensorHeight mt - sint y),
              MtSync,
              ReportAbs ABS_X (sint x),
              ReportAbs ABS_Y (SensorHeight mt - sint y),
              ReportKey BTN_TOUCH 1,
              InputSync]"
proof -
  let ?mt1 = "mt\<lparr>trace := tr1\<rparr>"
  let ?mt2 = "mt\<lparr>trace := tr2, InputPacket := pkt\<rparr>"
  have a: "readFrameLength dev mt 0 = Some ((True, L), ?mt1)"
    using fl unfolding tr1_def by (rule readFrameLength_first)
  have fdr: "frame_data_request ?mt1 (L + 1) = frame_data_request mt (L + 1)"
    by (simp add: frame_data_request_def)
  have tr12: "trace ?mt1 @ [frame_data_request ?mt1 (L + 1)] = tr2"
    by (simp add: frame_data_request_def tr1_def tr2_def)
  have b: "readResultData dev ?mt1 (L + 1) = newPacket ?mt2 1 (L + 1 - 3) \<bind> (\<lambda>mt3. Some (True, mt3))"
  proof -
    have "readResultData dev ?mt1 (L + 1) =
           newPacket (?mt1\<lparr>trace := trace ?mt1 @ [frame_data_request ?mt1 (L + 1)],
                         InputPacket :=
                           store_rx (map (dev (trace ?mt1 @ [frame_data_request ?mt1 (L + 1)]))
                              [0..<nat (L + 1)]) (InputPacket ?mt1)\<rparr>) 1 (L + 1 - 3)
             \<bind> (\<lambda>mt3. Some (True, mt3))"
    proof (rule readResultData_first)
      show "2 \<le> L + 1" using L by simp
      show "nat (L + 1) \<le> length (GetResultPacket ?mt1)" using L len by simp
      show "nat (L + 1) \<le> length (InputPacket ?mt1)" using L len by simp
      show "result_data_response
           (store_rx (map (dev (trace ?mt1 @ [frame_data_request ?mt1 (L + 1)])) [0..<nat (L + 1)])
              (InputPacket ?mt1)) (L + 1) = Done ()"
        using fd unfolding tr12 by (simp add: pkt_def)
    qed
    then show ?thesis unfolding tr12 by (simp add: pkt_def)
  qed
  have lp: "length pkt = 1024"
    using L len unfolding pkt_def by (subst length_store_rx) simp_all
  have h: "pkt ! 3 = 12" "pkt ! 17 = 1"
    using hdr lp by (simp_all add: rd8_def field_offsets numeral_3_eq_3)
  have f: "le16 (pkt ! 31) (pkt ! 32) = force_major" "le16 (pkt ! 33) (pkt ! 34) = 150"
    "le16 (pkt ! 25) (pkt ! 26) = size_major" "le16 (pkt ! 27) (pkt ! 28) = size_minor"
    "le16 (pkt ! 29) (pkt ! 30) = R" "pkt ! 13 = ident"
    "le16 (pkt ! 17) (pkt ! 18) = x" "le16 (pkt ! 19) (pkt ! 20) = y"
    using fld lp by (simp_all add: rd16_def rd8_def field_offsets)
  have ff: "floor_force 100 (150 :: u16) = 50" by (simp add: floor_force_def)
  have szp: "0 < size_minor" using sz by (simp add: word_gt_0)
  have c: "newPacket ?mt2 1 (L + 1 - 3) =
     Some (?mt2\<lparr>InputPacket := floored 100 pkt 13,
              trace := tr2 @
             [ReportAbs ABS_MT_TOUCH_MAJOR (uint (floor_force 100 force_major)),
              ReportAbs ABS_MT_TOUCH_MINOR 50,
              ReportAbs ABS_MT_WIDTH_MAJOR (uint size_major),
              ReportAbs ABS_MT_WIDTH_MINOR (uint size_minor),
              ReportAbs ABS_MT_ORIENTATION (16384 - uint R),
              ReportAbs ABS_MT_TRACKING_ID (uint ident),
              ReportAbs ABS_MT_POSITION_X (sint x),
              ReportAbs ABS_MT_POSITION_Y (SensorHeight mt - sint y),
              MtSync,
              ReportAbs ABS_X (sint x),
              ReportAbs ABS_Y (SensorHeight mt - sint y),
              ReportKey BTN_TOUCH 1,
              InputSync]\<rparr>)"
  proof -
    have p1: "InputPacket ?mt2 ! (1 + 16) = 1" using h(2) by simp
    have "InputPacket ?mt2 ! (1 + 2) = 12" using h(1) by (simp add: numeral_3_eq_3)
    then have e13: "1 + unat (InputPacket ?mt2 ! (1 + 2)) = 13" by simp
    have p2: "13 + 21 < length (InputPacket ?mt2)" using lp by simp
    note np = newPacket_one_finger [of ?mt2 1 "L + 1 - 3", unfolded e13, OF p1 p2]
    show ?thesis
      unfolding np using f floor ff szp by (simp add: finger_events_def Let_def)
  qed
  show ?thesis
    using a b c L
    by (simp add: readFrame_def readFrame_loop.simps [of dev 0 mt])
qed

theorem frame_read_one_finger_witness:
  "\<exists>mt'. readFrame (scripted [length16_response, frame16_response]) stale_sized_finger_state
            = Some (1, mt') \<and>
          CurNOP mt' = 0x65 \<and>
          ReportAbs ABS_MT_TOUCH_MINOR 50 \<in> set (trace mt') \<and>
          ReportKey BTN_TOUCH 1 \<in> set (trace mt')"
proof -
  let ?dev = "scripted [length16_response, frame16_response]"
  let ?mt = stale_sized_finger_state
  let ?pkt = "store_rx
    (map (?dev (trace ?mt @ [frame_length_request ?mt, frame_data_request ?mt (16 + 1)]))
       [0..<nat (16 + 1)]) (InputPacket ?mt)"
  have "length (InputPacket ?mt) = 0x400" "length (GetResultPacket ?mt) = 0x400"
    "min_pressure ?mt = 100"
    "frame_length_response (MaxPacketSize ?mt)
       (map (?dev (trace ?mt @ [frame_length_request ?mt])) [0..<8]) = Done 16"
    "(0 :: int) < 16" "(16 :: int) < 0x400"
    "result_data_response ?pkt (16 + 1) = Done ()"
    "rd8 ?pkt (1 + hdr_headerLen) = Some 12" "rd8 ?pkt (1 + hdr_numFingers) = Some 1"
    "rd16 ?pkt (13 + fd_force_major) = Some 0"
    "rd16 ?pkt (13 + fd_force_minor) = Some 150"
    "rd16 ?pkt (13 + fd_size_major) = Some 0"
    "rd16 ?pkt (13 + fd_size_minor) = Some 5"
    "rd16 ?pkt (13 + fd_orientation) = Some 0"
    "rd8 ?pkt (13 + fd_id) = Some 0"
    "rd16 ?pkt (13 + fd_x) = Some 7169"
    "rd16 ?pkt (13 + fd_y) = Some 0"
    "(5 :: u16) \<noteq> 0"
    by code_simp+
  from frame_read_one_finger [OF this]
  obtain mt' where "readFrame ?dev ?mt = Some (1, mt')"
    "CurNOP mt' = (if CurNOP ?mt = 0x64 then 0x65 else 0x64)"
    "ReportAbs ABS_MT_TOUCH_MINOR 50 \<in> set (trace mt')"
    "ReportKey BTN_TOUCH 1 \<in> set (trace mt')"
    by auto
  moreover have "CurNOP ?mt = 0x64"
    by (simp add: stale_sized_finger_state_def example_state_def probe_state_def)
  ultimately show ?thesis by auto
qed

text \<open>
  The scenario of claim C8 as stated does not fix the report of \<open>BTN_TOUCH\<close>.
  A length of 16 makes the transfer 17 bytes long, so the finger count (byte
  17 of the packet) and the finger record (bytes 13 to 40) are, wholly or in
  part, what the packet held before the transfer. With a packet that holds a
  finger count of 1, a minor force of 150 and a minor size of 0 there, the
  frame has one finger at offset 12 with minor force 150, the floor is 100,
  the finger is reported with a minor force of 50, and the driver reports
  \<open>BTN_TOUCH\<close> 0.
\<close>

theorem length16_frame_without_size:
  "outcome (readFrame (scripted [length16_response, frame16_response]) stale_finger_state) =
     Some (1, 0x65,
       [SpiTxRx NORMAL_SPEED (replicate 8 0x64), SpiTxRx NORMAL_SPEED (replicate 17 0x68),
        ReportAbs ABS_MT_TOUCH_MAJOR 0, ReportAbs ABS_MT_TOUCH_MINOR 50,
        ReportAbs ABS_MT_WIDTH_MAJOR 0, ReportAbs ABS_MT_WIDTH_MINOR 0,
        ReportAbs ABS_MT_ORIENTATION 16384, ReportAbs ABS_MT_TRACKING_ID 0,
        ReportAbs ABS_MT_POSITION_X 7169, ReportAbs ABS_MT_POSITION_Y 15936,
        MtSync, ReportAbs ABS_X 7169, ReportAbs ABS_Y 15936,
        ReportKey BTN_TOUCH 0, InputSync]) \<and>
   frame_length_response (MaxPacketSize stale_finger_state) length16_response = Done 16 \<and>
   result_data_response (store_rx frame16_response (InputPacket stale_finger_state)) 17 = Done () \<and>
   rd8 (store_rx frame16_response (InputPacket stale_finger_state)) (1 + hdr_headerLen) = Some 12 \<and>
   rd8 (store_rx frame16_response (InputPacket stale_finger_state)) (1 + hdr_numFingers) = Some 1 \<and>
   rd16 (store_rx frame16_response (InputPacket stale_finger_state)) (1 + 12 + fd_force_minor)
     = Some 150 \<and>
   min_pressure stale_finger_state = 100"
  by code_simp

text \<open>
  Claim C3. The setup sets the poll token to \<open>0x64\<close> (line 372, in the part
  \<open>setup_input\<close>) before any frame is read. A call of \<open>readFrame\<close> returns 1 (a
  frame of non-zero length was read), 0 (the length was zero) or \<open>-1\<close> (it gave
  up), and changes the token, to the other of \<open>0x64\<close> and \<open>0x65\<close>, exactly when
  it returns 1. So after \<open>n\<close> calls in a row from \<open>0x64\<close> the token is \<open>0x64\<close> if
  the number of calls that returned 1 is even and \<open>0x65\<close> if it is odd, hence
  always one of the two; and if all \<open>n\<close> returned 1, it is \<open>0x64\<close> for even \<open>n\<close>
  and \<open>0x65\<close> for odd \<open>n\<close>.
\<close>

theorem poll_token_alternates:
  "(setup_input env mt0 = (0, mt1) \<longrightarrow> CurNOP mt1 = 0x64) \<and>
   (readFrame dev mt = Some (r, mt') \<longrightarrow>
      (r = 1 \<or> r = 0 \<or> r = - 1) \<and>
      CurNOP mt' = (if r = 1 then (if CurNOP mt = 0x64 then 0x65 else 0x64) else CurNOP mt)) \<and>
   (CurNOP mt = 0x64 \<and> read_cycles dev n mt = Some (rs, mt'') \<longrightarrow>
      length rs = n \<and> CurNOP mt'' = (if even (count_list rs 1) then 0x64 else 0x65)) \<and>
   (CurNOP mt = 0x64 \<and> read_cycles dev n mt = Some (rs, mt'') \<and> (\<forall>r \<in> set rs. r = 1) \<longrightarrow>
      CurNOP mt'' = (if even n then 0x64 else 0x65))"
proof -
  have a: "CurNOP mt1 = 0x64" if "setup_input env mt0 = (0, mt1)"
    using that by (auto simp add: setup_input_def Let_def split: if_splits)
  have b: "(r = 1 \<or> r = 0 \<or> r = - 1) \<and>
      CurNOP mt' = (if r = 1 then (if CurNOP mt = 0x64 then 0x65 else 0x64) else CurNOP mt)"
    if "readFrame dev mt = Some (r, mt')"
    using readFrame_loop_token [OF that [unfolded readFrame_def]] by (simp add: flip_nop_def)
  have c: "length rs = n \<and> CurNOP mt'' = (if even (count_list rs 1) then 0x64 else 0x65)"
    if "CurNOP mt = 0x64 \<and> read_cycles dev n mt = Some (rs, mt'')"
    using that read_cycles_token [of dev n mt rs mt''] by (auto simp add: flip_nop_def)
  have d: "CurNOP mt'' = (if even n then 0x64 else 0x65)"
    if "CurNOP mt = 0x64 \<and> read_cycles dev n mt = Some (rs, mt'') \<and> (\<forall>r \<in> set rs. r = 1)"
  proof -
    have "count_list rs 1 = length rs" using that by (simp add: count_list_all)
    with c that show ?thesis by auto
  qed
  show ?thesis using a b c d by blast
qed

theorem poll_token_alternates_witness:
  "CurNOP (snd (setup_input ready_env example_state)) = 0x64 \<and>
   (\<exists>mt'. readFrame (scripted [length16_response, frame16_response]) stale_sized_finger_state
            = Some (1, mt') \<and> CurNOP mt' = 0x65) \<and>
   (\<exists>mt'. read_cycles (scripted [length16_response, frame16_response]) 2
            stale_sized_finger_state = Some ([1, - 1], mt') \<and> CurNOP mt' = 0x65) \<and>
   (\<exists>mt'. read_cycles
            (scripted [length16_response, frame16_response, length16_response, frame16_response]) 2
            stale_sized_finger_state = Some ([1, 1], mt') \<and> CurNOP mt' = 0x64)"
proof -
  let ?d1 = "scripted [length16_response, frame16_response]"
  let ?d2 = "scripted [length16_response, frame16_response, length16_response, frame16_response]"
  let ?mt = stale_sized_finger_state
  have t: "CurNOP ?mt = 0x64"
    by (simp add: stale_sized_finger_state_def example_state_def probe_state_def)
  have s: "setup_input ready_env example_state = (0, snd (setup_input ready_env example_state))"
    by (simp add: setup_input_def ready_env_def Let_def)
  from one_frame_read obtain m1 where m1: "readFrame ?d1 ?mt = Some (1, m1)"
    by (cases "readFrame ?d1 ?mt") auto
  from one_frame_cycles obtain m2 where m2: "read_cycles ?d1 2 ?mt = Some ([1, - 1], m2)"
    by (cases "read_cycles ?d1 2 ?mt") auto
  from two_frame_cycles obtain m3 where m3: "read_cycles ?d2 2 ?mt = Some ([1, 1], m3)"
    by (cases "read_cycles ?d2 2 ?mt") auto
  have "CurNOP (snd (setup_input ready_env example_state)) = 0x64"
    using poll_token_alternates
      [of ready_env example_state "snd (setup_input ready_env example_state)"] s by blast
  moreover have "CurNOP m1 = 0x65"
    using poll_token_alternates [where dev = ?d1 and mt = ?mt and r = 1 and mt' = m1] m1 t
    by simp
  moreover have "CurNOP m2 = 0x65"
    using poll_token_alternates
      [where dev = ?d1 and mt = ?mt and n = 2 and rs = "[1, - 1]" and mt'' = m2] m2 t
    by simp
  moreover have "CurNOP m3 = 0x64"
    using poll_token_alternates
      [where dev = ?d2 and mt = ?mt and n = 2 and rs = "[1, 1]" and mt'' = m3] m3 t
    by simp
  ultimately show ?thesis using m1 m2 m3 by blast
qed

end
